theory Spec2Isabelle
  imports Complex_Main
begin

section \<open>Data model\<close>

text \<open>
  The repository holds two variants of the same front end: \<^verbatim>\<open>src/script.js\<close> (rectangles
  drawn per message, zoom-dependent visibility) and \<^verbatim>\<open>src/unnamed/part_000\<close> (region
  entities aggregated in \<^verbatim>\<open>regionStore\<close>, spatial query \<^verbatim>\<open>findMessagesInRegion\<close>).
  Functions that exist in both files with different bodies carry the suffix \<open>_script\<close> for
  the \<^verbatim>\<open>script.js\<close> body; the unsuffixed name is the \<^verbatim>\<open>part_000\<close> body.

  JavaScript numbers that come out of \<^verbatim>\<open>JSON.parse\<close> are finite doubles. They are modelled
  as the reals they denote: comparison and \<^verbatim>\<open>===\<close> on finite doubles agree with \<open><\<close> and
  \<open>=\<close> on these reals, and arithmetic rounds (section on double-precision arithmetic).
  Strings are lists of 8-bit code units.
\<close>

text \<open>A JSON value as it may appear as an entry of \<^verbatim>\<open>msg.locations\<close>.\<close>

datatype json = JNull | JBool bool | JNum real | JStr string | JOther

text \<open>
  A value of the location cache that is an object: every field the code reads is present
  (\<open>Some\<close>) or \<^verbatim>\<open>undefined\<close> (\<open>None\<close>). A cache value is a \<open>coord option\<close>, where
  \<open>None\<close> is JSON \<^verbatim>\<open>null\<close> (geocoding failed).
\<close>

record coord =
  lat :: "real option"
  lon :: "real option"
  north :: "real option"
  south :: "real option"
  east :: "real option"
  west :: "real option"

text \<open>The \<^verbatim>\<open>bounds\<close> object of a region entity: four numbers.\<close>

record bounds =
  bnorth :: real
  bsouth :: real
  beast :: real
  bwest :: real

text \<open>
  A message record. \<open>msg_id\<close> is \<^verbatim>\<open>msg.id\<close> (\<open>None\<close> when the record carries none),
  \<open>msg_text\<close> is \<^verbatim>\<open>msg.text\<close>; an absent \<^verbatim>\<open>msg.locations\<close> is the empty list (the code
  treats both alike).
\<close>

record msg =
  msg_id :: "string option"
  msg_text :: string
  cleaned_text :: string
  channel :: string
  date :: string
  locations :: "json list"

type_synonym locationCache = "string \<rightharpoonup> coord option"

section \<open>Double-precision arithmetic\<close>

text \<open>
  A JavaScript number is an IEEE 754 double. Finite doubles are modelled by the reals they
  denote, and every arithmetic operation rounds its exact result to the nearest double,
  ties to the even significand: \<open>fl\<close>. A non-zero magnitude is scaled by powers of two into
  the interval from \<open>2^52 = 4503599627370496\<close> up to \<open>2^53 = 9007199254740992\<close>, or as far as
  the least exponent \<open>-1074\<close> allows (subnormal numbers), rounded to an integer and scaled
  back. A decimal literal of the source or of a JSON file denotes \<open>fl\<close> of its decimal
  value.

  A rounded result of magnitude \<open>2^1024\<close> or more is an infinity in JavaScript. The
  coordinates of this program are degrees of latitude and longitude: for bounds of
  magnitude below \<open>2^511\<close> no sum, difference or product of spans reaches that size, and
  these results are kept as reals. The quotients by the spans of the viewport can reach
  it, and are modelled with the infinities (\<open>js_div\<close>, \<open>js_mul\<close> below). The sign of zero
  is not represented: a zero divisor arises here only as a difference of two equal
  doubles, which is \<open>+0\<close>.
\<close>

definition roundHalfEven :: "real \<Rightarrow> int" where
  "roundHalfEven y =
     (let f = \<lfloor>y\<rfloor>; r = y - of_int f
      in if r < 1 / 2 then f else if r > 1 / 2 then f + 1
         else if even f then f else f + 1)"

function scaleDown :: "real \<Rightarrow> int \<Rightarrow> real \<times> int" where
  "scaleDown m e = (if m \<ge> 9007199254740992 then scaleDown (m / 2) (e + 1) else (m, e))"
  by pat_completeness auto
termination
proof (relation "measure (\<lambda>(m, e). nat \<lfloor>m\<rfloor>)")
  show "wf (measure (\<lambda>(m, e). nat \<lfloor>m\<rfloor>))" by simp
next
  fix m :: real and e :: int
  assume m: "9007199254740992 \<le> m"
  have "m / 2 + 1 \<le> m" using m by linarith
  then have "\<lfloor>m / 2 + 1\<rfloor> \<le> \<lfloor>m\<rfloor>" by (rule floor_mono)
  then have lt: "\<lfloor>m / 2\<rfloor> < \<lfloor>m\<rfloor>" by simp
  have "(1::real) \<le> m" using m by linarith
  with lt show "((m / 2, e + 1), (m, e)) \<in> measure (\<lambda>(m, e). nat \<lfloor>m\<rfloor>)"
    by simp
qed

function scaleUp :: "real \<Rightarrow> int \<Rightarrow> real \<times> int" where
  "scaleUp m e =
     (if m < 4503599627370496 \<and> e > - 1074 then scaleUp (2 * m) (e - 1) else (m, e))"
  by pat_completeness auto
termination
  by (relation "measure (\<lambda>(m, e). nat (e + 1074))") auto

declare scaleDown.simps [simp del] scaleUp.simps [simp del]

definition fl :: "real \<Rightarrow> real" where
  "fl x =
     (if x = 0 then 0
      else (let (m, e) = scaleDown \<bar>x\<bar> 0; (m', e') = scaleUp m e
            in sgn x * of_int (roundHalfEven m') * 2 powi e'))"

text \<open>The operators \<^verbatim>\<open>+\<close>, \<^verbatim>\<open>-\<close>, \<^verbatim>\<open>*\<close> and \<^verbatim>\<open>/\<close> (by a non-zero divisor) on doubles.\<close>

definition js_add :: "real \<Rightarrow> real \<Rightarrow> real" where
  "js_add a b = fl (a + b)"

definition js_sub :: "real \<Rightarrow> real \<Rightarrow> real" where
  "js_sub a b = fl (a - b)"

definition js_times :: "real \<Rightarrow> real \<Rightarrow> real" where
  "js_times a b = fl (a * b)"

definition js_quot :: "real \<Rightarrow> real \<Rightarrow> real" where
  "js_quot a b = fl (a / b)"

section \<open>Location keys and the cache\<close>

text \<open>
  \<^verbatim>\<open>String.prototype.trim\<close> and \<^verbatim>\<open>toLowerCase\<close> on 8-bit code units (Latin-1): the white
  space of that range, and the letters with a lower-case form in it.
\<close>

definition isWhiteSpace :: "char \<Rightarrow> bool" where
  "isWhiteSpace c = (of_char c \<in> {9, 10, 11, 12, 13, 32, 160 :: nat})"

definition trim :: "string \<Rightarrow> string" where
  "trim s = rev (dropWhile isWhiteSpace (rev (dropWhile isWhiteSpace s)))"

definition toLowerChar :: "char \<Rightarrow> char" where
  "toLowerChar c =
     (let n = (of_char c :: nat)
      in if (65 \<le> n \<and> n \<le> 90) \<or> (192 \<le> n \<and> n \<le> 222 \<and> n \<noteq> 215)
         then char_of (n + 32) else c)"

definition toLowerCase :: "string \<Rightarrow> string" where
  "toLowerCase s = map toLowerChar s"

text \<open>\<^verbatim>\<open>location.trim().toLowerCase()\<close>, the key every lookup uses.\<close>

definition locationKey :: "string \<Rightarrow> string" where
  "locationKey location = toLowerCase (trim location)"

text \<open>
  \<open>locationCache\<close> is a plain object: its own properties, and a prototype that is
  \<^verbatim>\<open>Object.prototype\<close> unless an assignment to \<^verbatim>\<open>__proto__\<close> has replaced it by a cached
  object or by \<^verbatim>\<open>null\<close>.
\<close>

datatype prototype = ObjectPrototype | NullPrototype | CoordPrototype coord

record jsObject =
  own :: "string \<rightharpoonup> coord option"
  proto :: prototype

text \<open>
  A truthy value that has none of the six properties the code reads: the function
  \<^verbatim>\<open>Object\<close>, the object \<^verbatim>\<open>Object.prototype\<close>, a number other than zero.
\<close>

definition noCoord :: coord where
  "noCoord = \<lparr>lat = None, lon = None, north = None, south = None, east = None, west = None\<rparr>"

definition coordField :: "coord \<Rightarrow> string \<Rightarrow> real option" where
  "coordField c k =
     (if k = ''lat'' then lat c else if k = ''lon'' then lon c
      else if k = ''north'' then north c else if k = ''south'' then south c
      else if k = ''east'' then east c else if k = ''west'' then west c
      else None)"

text \<open>
  What a key that is not an own property inherits. From \<^verbatim>\<open>Object.prototype\<close>, of the names
  a lower-cased key can take: \<^verbatim>\<open>constructor\<close> (the function \<^verbatim>\<open>Object\<close>) and \<^verbatim>\<open>__proto__\<close>
  (the prototype itself). From a cached object as prototype: \<^verbatim>\<open>__proto__\<close> is that object,
  a coordinate field is its number, which the callers treat as absent when it is zero
  (falsy and not \<^verbatim>\<open>null\<close>), and the rest comes from \<^verbatim>\<open>Object.prototype\<close>.
\<close>

definition fromObjectPrototype :: "string \<Rightarrow> coord option option" where
  "fromObjectPrototype k =
     (if k = ''constructor'' \<or> k = ''__proto__'' then Some (Some noCoord) else None)"

fun inherited :: "prototype \<Rightarrow> string \<Rightarrow> coord option option" where
  "inherited NullPrototype k = None"
| "inherited ObjectPrototype k = fromObjectPrototype k"
| "inherited (CoordPrototype c) k =
     (if k = ''__proto__'' then Some (Some c)
      else (case coordField c k of
              Some x \<Rightarrow> (if x = 0 then None else Some (Some noCoord))
            | None \<Rightarrow> fromObjectPrototype k))"

text \<open>
  The property read \<^verbatim>\<open>locationCache[key]\<close>: \<open>None\<close> is \<^verbatim>\<open>undefined\<close>, \<open>Some None\<close> is
  \<^verbatim>\<open>null\<close>, \<open>Some (Some c)\<close> is an object with the coordinate fields of \<open>c\<close>. A
  \<open>locationCache\<close> is the cache as the lookups see it, a function of the key. Cached values
  that are neither an object nor \<^verbatim>\<open>null\<close>, and properties of a cached object other than
  the six of \<open>coord\<close>, are outside the model.
\<close>

definition getProperty :: "jsObject \<Rightarrow> locationCache" where
  "getProperty obj k = (case own obj k of Some v \<Rightarrow> Some v | None \<Rightarrow> inherited (proto obj) k)"

text \<open>
  The assignment \<^verbatim>\<open>locationCache[key] = value\<close>: for the key \<^verbatim>\<open>__proto__\<close> the setter
  inherited from \<^verbatim>\<open>Object.prototype\<close> replaces the prototype, as long as the prototype
  is not \<^verbatim>\<open>null\<close>; any other assignment makes an own property.
\<close>

definition setProperty :: "string \<Rightarrow> coord option \<Rightarrow> jsObject \<Rightarrow> jsObject" where
  "setProperty k v obj =
     (if k = ''__proto__'' \<and> proto obj \<noteq> NullPrototype
      then obj\<lparr>proto := (case v of Some c \<Rightarrow> CoordPrototype c | None \<Rightarrow> NullPrototype)\<rparr>
      else obj\<lparr>own := (own obj)(k \<mapsto> v)\<rparr>)"

text \<open>
  The raw cache is the parsed JSON object, given by its entries in key order; every entry
  is an own property of it. \<^verbatim>\<open>script.js\<close> (\<^verbatim>\<open>initMap\<close>, line 65) uses the parsed object
  as it is.
\<close>

definition initCache_script :: "(string \<times> coord option) list \<Rightarrow> locationCache" where
  "initCache_script rawLocationCache =
     getProperty \<lparr>own = fold (\<lambda>(key, v) props. props(key \<mapsto> v)) rawLocationCache Map.empty,
                  proto = ObjectPrototype\<rparr>"

text \<open>
  \<^verbatim>\<open>part_000\<close> (\<^verbatim>\<open>initMap\<close>, lines 84-90) re-keys the parsed object into a fresh one:
  \<^verbatim>\<open>locationCache[key.trim().toLowerCase()] = rawLocationCache[key]\<close> for every key in order.
\<close>

definition initCache :: "(string \<times> coord option) list \<Rightarrow> locationCache" where
  "initCache rawLocationCache =
     getProperty (fold (\<lambda>(key, v). setProperty (locationKey key) v) rawLocationCache
                    \<lparr>own = Map.empty, proto = ObjectPrototype\<rparr>)"

text \<open>\<^verbatim>\<open>locationCache[location.trim().toLowerCase()]\<close>, the lookup of a location name.\<close>

definition lookupLocation :: "locationCache \<Rightarrow> string \<Rightarrow> coord option option" where
  "lookupLocation cache location = cache (locationKey location)"

section \<open>Spatial predicates\<close>

text \<open>The coord object of a bounding box, and of a point.\<close>

definition boxCoord :: "bounds \<Rightarrow> coord" where
  "boxCoord b = \<lparr>lat = None, lon = None, north = Some (bnorth b), south = Some (bsouth b),
                 east = Some (beast b), west = Some (bwest b)\<rparr>"

definition pointCoord :: "real \<Rightarrow> real \<Rightarrow> coord" where
  "pointCoord la lo = \<lparr>lat = Some la, lon = Some lo, north = None, south = None,
                       east = None, west = None\<rparr>"

text \<open>\<^verbatim>\<open>isLocationInBounds\<close> (\<^verbatim>\<open>part_000\<close>, lines 631-665): the point test comes first.\<close>

definition isLocationInBounds :: "coord \<Rightarrow> bounds \<Rightarrow> bool" where
  "isLocationInBounds c b =
     (case (lat c, lon c) of
        (Some la, Some lo) \<Rightarrow>
          la \<ge> bsouth b \<and> la \<le> bnorth b \<and> lo \<ge> bwest b \<and> lo \<le> beast b
      | _ \<Rightarrow>
        (case (north c, south c, east c, west c) of
           (Some n, Some s, Some e, Some w) \<Rightarrow>
             \<not> (s > bnorth b \<or> n < bsouth b \<or> w > beast b \<or> e < bwest b)
         | _ \<Rightarrow> False))"

text \<open>The two predicates of the specification, and the bounds invariant.\<close>

definition pointInRegion :: "real \<Rightarrow> real \<Rightarrow> bounds \<Rightarrow> bool" where
  "pointInRegion la lo r = isLocationInBounds (pointCoord la lo) r"

definition regionsOverlap :: "bounds \<Rightarrow> bounds \<Rightarrow> bool" where
  "regionsOverlap a b = isLocationInBounds (boxCoord a) b"

definition validBounds :: "bounds \<Rightarrow> bool" where
  "validBounds b = (bnorth b \<ge> bsouth b \<and> beast b \<ge> bwest b)"

section \<open>Visibility and paint order (\<^verbatim>\<open>script.js\<close>, \<^verbatim>\<open>updateRegionVisibility\<close>)\<close>

text \<open>
  The relative size of a shape divides by the viewport's spans. A JavaScript division by
  zero gives an infinity or \<^verbatim>\<open>NaN\<close>, and HOL's gives 0, so the quotient and the product
  built from it are modelled with the non-finite values written out; finite results are
  rounded.
\<close>

datatype jsnum = Fin real | PosInf | NegInf | NaN

text \<open>A rounded result that reaches \<open>2 ^ 1024\<close> in magnitude overflows to an infinity.\<close>

definition finiteOrInf :: "real \<Rightarrow> jsnum" where
  "finiteOrInf y = (if y \<ge> 2 ^ 1024 then PosInf else if y \<le> - (2 ^ 1024) then NegInf else Fin y)"

definition js_div :: "real \<Rightarrow> real \<Rightarrow> jsnum" where
  "js_div a b =
     (if b \<noteq> 0 then finiteOrInf (js_quot a b)
      else if a > 0 then PosInf else if a < 0 then NegInf else NaN)"

definition js_sign :: "jsnum \<Rightarrow> real" where
  "js_sign x = (case x of Fin a \<Rightarrow> sgn a | PosInf \<Rightarrow> 1 | NegInf \<Rightarrow> - 1 | NaN \<Rightarrow> 0)"

definition js_mul :: "jsnum \<Rightarrow> jsnum \<Rightarrow> jsnum" where
  "js_mul x y =
     (case (x, y) of
        (Fin a, Fin b) \<Rightarrow> finiteOrInf (js_times a b)
      | (NaN, _) \<Rightarrow> NaN
      | (_, NaN) \<Rightarrow> NaN
      | _ \<Rightarrow> (let s = js_sign x * js_sign y
              in if s > 0 then PosInf else if s < 0 then NegInf else NaN))"

text \<open>\<^verbatim>\<open>x > t\<close> for a finite threshold \<open>t\<close>.\<close>

definition js_gt :: "jsnum \<Rightarrow> real \<Rightarrow> bool" where
  "js_gt x t = (case x of Fin a \<Rightarrow> a > t | PosInf \<Rightarrow> True | NegInf \<Rightarrow> False | NaN \<Rightarrow> False)"

text \<open>An entry of \<^verbatim>\<open>rectanglesWithSize\<close>; \<open>layer\<close> identifies the rectangle.\<close>

record rectWithSize =
  layer :: nat
  area :: real
  relativeArea :: jsnum
  latSpan :: real
  lonSpan :: real

text \<open>
  The body of \<^verbatim>\<open>eachLayer\<close> (lines 196-216): \<open>vp\<close> is \<^verbatim>\<open>map.getBounds()\<close>, \<open>lb\<close> is
  \<^verbatim>\<open>layer.getBounds()\<close>. Every subtraction, product and quotient is the rounded one.
\<close>

definition measureLayer :: "bounds \<Rightarrow> nat \<times> bounds \<Rightarrow> rectWithSize" where
  "measureLayer vp l =
     (let lb = snd l;
          viewportLatSpan = js_sub (bnorth vp) (bsouth vp);
          viewportLonSpan = js_sub (beast vp) (bwest vp);
          latSpan = js_sub (bnorth lb) (bsouth lb);
          lonSpan = js_sub (beast lb) (bwest lb);
          area = js_times latSpan lonSpan;
          relativeLatSize = js_div latSpan viewportLatSpan;
          relativeLonSize = js_div lonSpan viewportLonSpan;
          relativeArea = js_mul relativeLatSize relativeLonSize
      in \<lparr>layer = fst l, area = area, relativeArea = relativeArea,
          latSpan = latSpan, lonSpan = lonSpan\<rparr>)"

text \<open>
  The visibility rules (lines 224-255): \<^verbatim>\<open>shouldShow\<close> starts true; the first chain hides
  shapes that are too small for the zoom, the second hides shapes that are too big.
\<close>

definition shouldShow :: "real \<Rightarrow> rectWithSize \<Rightarrow> bool" where
  "shouldShow currentZoom item =
     (let s1 =
        (if currentZoom < 9 then
           (if latSpan item < fl 0.1 \<or> lonSpan item < fl 0.1 then False else True)
         else if currentZoom < 11 then
           (if latSpan item < fl 0.05 \<or> lonSpan item < fl 0.05 then False else True)
         else if currentZoom < 13 then
           (if latSpan item < fl 0.01 \<or> lonSpan item < fl 0.01 then False else True)
         else True)
      in
        (if currentZoom > 13 then
           (if js_gt (relativeArea item) (fl 0.4) then False else s1)
         else if currentZoom > 11 then
           (if js_gt (relativeArea item) (fl 0.6) then False else s1)
         else s1))"

text \<open>What the loop does to one rectangle: the style it sets and, when shown, the layer move.\<close>

datatype paint = Hide | ShowFront | ShowBack

definition paintItem :: "real \<Rightarrow> nat \<Rightarrow> nat \<Rightarrow> rectWithSize \<Rightarrow> nat \<times> paint" where
  "paintItem currentZoom len index item =
     (layer item,
      if shouldShow currentZoom item
      then (if real index < real len / 2 then ShowFront else ShowBack)
      else Hide)"

text \<open>
  \<^verbatim>\<open>updateRegionVisibility\<close>: nothing happens when the rectangle layer is not on the map;
  otherwise the rectangles are measured, sorted by area (\<^verbatim>\<open>Array.prototype.sort\<close> is
  stable, as \<^const>\<open>sort_key\<close> is) and painted in that order. The result lists, in the
  order of the calls, each rectangle with what was done to it.
\<close>

definition updateRegionVisibility ::
  "bool \<Rightarrow> real \<Rightarrow> bounds \<Rightarrow> (nat \<times> bounds) list \<Rightarrow> (nat \<times> paint) list" where
  "updateRegionVisibility hasLayer currentZoom vp layers =
     (if \<not> hasLayer then []
      else
        (let rectanglesWithSize = sort_key area (map (measureLayer vp) layers)
         in map (\<lambda>(index, item). paintItem currentZoom (length rectanglesWithSize) index item)
              (enumerate 0 rectanglesWithSize)))"


section \<open>Map state and ingestion\<close>

text \<open>
  A region entity of \<^verbatim>\<open>regionStore\<close> (\<^verbatim>\<open>part_000\<close>, lines 338-348). Its marker and
  rectangle are kept in the layer groups of the state.
\<close>

record region =
  name :: string
  bounds :: bounds
  messages :: "msg list"
  center :: "real \<times> real"

text \<open>
  The module-level state that \<^verbatim>\<open>refreshMarkers\<close> rebuilds. Keys \<^verbatim>\<open>msg_N\<close> and
  \<^verbatim>\<open>region_N\<close> are the numbers \<open>N\<close>; both stores are kept in insertion order, the order
  \<^verbatim>\<open>Object.keys\<close> enumerates them in. A point marker is its position and the message key
  of its popup, a region marker its position and region key, a rectangle the message key
  of its popup and the bounds Leaflet keeps for it. \<^verbatim>\<open>script.js\<close> has the same state
  without \<open>regionStore\<close>, \<open>nextRegionId\<close> and \<open>regionMarkersGroup\<close>, which stay empty there.
\<close>

record mapState =
  messageStore :: "(nat \<times> msg) list"
  regionStore :: "(nat \<times> region) list"
  nextMsgId :: nat
  nextRegionId :: nat
  markerClusterGroup :: "(real \<times> real \<times> nat) list"
  regionMarkersGroup :: "(real \<times> real \<times> nat) list"
  rectangleLayerGroup :: "(nat \<times> bounds) list"

definition resetState :: mapState where
  "resetState = \<lparr>messageStore = [], regionStore = [], nextMsgId = 0, nextRegionId = 0,
                  markerClusterGroup = [], regionMarkersGroup = [], rectangleLayerGroup = []\<rparr>"

text \<open>The test of \<^verbatim>\<open>find\<close> in \<^verbatim>\<open>addLocationToMap\<close> (lines 320-326): name and four bounds.\<close>

definition sameRegion :: "string \<Rightarrow> bounds \<Rightarrow> nat \<times> region \<Rightarrow> bool" where
  "sameRegion locationName b entry =
     (name (snd entry) = locationName \<and>
      bnorth (bounds (snd entry)) = bnorth b \<and>
      bsouth (bounds (snd entry)) = bsouth b \<and>
      beast (bounds (snd entry)) = beast b \<and>
      bwest (bounds (snd entry)) = bwest b)"

definition pushMessage :: "nat \<Rightarrow> msg \<Rightarrow> nat \<times> region \<Rightarrow> nat \<times> region" where
  "pushMessage regionId m entry =
     (if fst entry = regionId
      then (fst entry, (snd entry)\<lparr>messages := messages (snd entry) @ [m]\<rparr>)
      else entry)"

text \<open>
  \<^verbatim>\<open>L.rectangle([[south, west], [north, east]])\<close>: Leaflet keeps the two corners as a
  \<^verbatim>\<open>LatLngBounds\<close>, whose south-west corner takes the smaller latitude and longitude and
  whose north-east corner the larger ones, whatever the order they were given in.
\<close>

definition rectangle :: "real \<Rightarrow> real \<Rightarrow> real \<Rightarrow> real \<Rightarrow> bounds" where
  "rectangle s w n e = \<lparr>bnorth = max s n, bsouth = min s n, beast = max w e, bwest = min w e\<rparr>"

text \<open>
  \<^verbatim>\<open>addLocationToMap\<close> of \<^verbatim>\<open>part_000\<close> (lines 302-405). The centre is the double
  \<^verbatim>\<open>(coord.north + coord.south) / 2\<close>: the sum is rounded, then the quotient.
\<close>

definition addLocationToMap :: "coord \<Rightarrow> msg \<Rightarrow> string \<Rightarrow> mapState \<Rightarrow> mapState" where
  "addLocationToMap c m locationName st =
     (let msgId = nextMsgId st;
          st1 = st\<lparr>nextMsgId := msgId + 1, messageStore := messageStore st @ [(msgId, m)]\<rparr>
      in case (north c, south c, east c, west c) of
           (Some n, Some s, Some e, Some w) \<Rightarrow>
             (let centerLat = js_quot (js_add n s) 2;
                  centerLon = js_quot (js_add e w) 2;
                  b = \<lparr>bnorth = n, bsouth = s, beast = e, bwest = w\<rparr>
              in case find (sameRegion locationName b) (regionStore st1) of
                   Some existing \<Rightarrow>
                     st1\<lparr>regionStore := map (pushMessage (fst existing) m) (regionStore st1)\<rparr>
                 | None \<Rightarrow>
                     (let regionId = nextRegionId st1
                      in st1\<lparr>nextRegionId := regionId + 1,
                             regionStore := regionStore st1 @
                               [(regionId, \<lparr>name = locationName, bounds = b, messages = [m],
                                            center = (centerLat, centerLon)\<rparr>)],
                             regionMarkersGroup := regionMarkersGroup st1 @
                               [(centerLat, centerLon, regionId)],
                             rectangleLayerGroup := rectangleLayerGroup st1 @
                               [(msgId, rectangle s w n e)]\<rparr>))
         | _ \<Rightarrow>
           (case (lat c, lon c) of
              (Some la, Some lo) \<Rightarrow>
                st1\<lparr>markerClusterGroup := markerClusterGroup st1 @ [(la, lo, msgId)]\<rparr>
            | _ \<Rightarrow> st1))"

text \<open>\<^verbatim>\<open>addLocationToMap\<close> of \<^verbatim>\<open>script.js\<close> (lines 318-355): one rectangle per call.\<close>

definition addLocationToMap_script :: "coord \<Rightarrow> msg \<Rightarrow> string \<Rightarrow> mapState \<Rightarrow> mapState" where
  "addLocationToMap_script c m locationName st =
     (let msgId = nextMsgId st;
          st1 = st\<lparr>nextMsgId := msgId + 1, messageStore := messageStore st @ [(msgId, m)]\<rparr>
      in case (north c, south c, east c, west c) of
           (Some n, Some s, Some e, Some w) \<Rightarrow>
             st1\<lparr>rectangleLayerGroup := rectangleLayerGroup st1 @ [(msgId, rectangle s w n e)]\<rparr>
         | _ \<Rightarrow>
           (case (lat c, lon c) of
              (Some la, Some lo) \<Rightarrow>
                st1\<lparr>markerClusterGroup := markerClusterGroup st1 @ [(la, lo, msgId)]\<rparr>
            | _ \<Rightarrow> st1))"

text \<open>
  The body of the inner \<^verbatim>\<open>forEach\<close> of \<^verbatim>\<open>refreshMarkers\<close> (the same in both files, lines
  265-298 and 289-311): an entry that is falsy or not a string, or empty after trimming,
  is skipped with a warning; so is a key that is absent from the cache or cached as
  \<^verbatim>\<open>null\<close>. \<open>add\<close> is the file's \<^verbatim>\<open>addLocationToMap\<close>.
\<close>

definition placeLocation ::
  "(coord \<Rightarrow> msg \<Rightarrow> string \<Rightarrow> mapState \<Rightarrow> mapState) \<Rightarrow>
   locationCache \<Rightarrow> msg \<Rightarrow> json \<Rightarrow> mapState \<Rightarrow> mapState" where
  "placeLocation add cache m location st =
     (case location of
        JStr l \<Rightarrow>
          (if l = [] then st
           else if locationKey l = [] then st
           else (case cache (locationKey l) of
                   Some (Some c) \<Rightarrow> add c m l st
                 | _ \<Rightarrow> st))
      | _ \<Rightarrow> st)"

text \<open>
  \<^verbatim>\<open>refreshMarkers\<close>: reset, then every location of every message in order. In
  \<^verbatim>\<open>script.js\<close> the call of \<^verbatim>\<open>updateRegionVisibility\<close> that follows restyles the
  rectangles and leaves this state as it is.
\<close>

definition refreshMarkers :: "locationCache \<Rightarrow> msg list \<Rightarrow> mapState" where
  "refreshMarkers cache msgs =
     fold (\<lambda>m st. fold (placeLocation addLocationToMap cache m) (locations m) st)
       msgs resetState"

definition refreshMarkers_script :: "locationCache \<Rightarrow> msg list \<Rightarrow> mapState" where
  "refreshMarkers_script cache msgs =
     fold (\<lambda>m st. fold (placeLocation addLocationToMap_script cache m) (locations m) st)
       msgs resetState"

section \<open>Spatial query (\<^verbatim>\<open>part_000\<close>, \<^verbatim>\<open>findMessagesInRegion\<close>)\<close>

datatype error = TypeError

text \<open>\<^verbatim>\<open>msg.id || `${msg.text}_${msg.date}_${msg.channel}`\<close>: an empty id is falsy.\<close>

definition messageId :: "msg \<Rightarrow> string" where
  "messageId m =
     (let joined = msg_text m @ ''_'' @ date m @ ''_'' @ channel m
      in case msg_id m of
           Some i \<Rightarrow> (if i \<noteq> [] then i else joined)
         | None \<Rightarrow> joined)"

text \<open>
  The inner \<^verbatim>\<open>forEach\<close> over \<^verbatim>\<open>msg.locations\<close> (lines 603-623). The accumulator is
  \<^verbatim>\<open>messagesInRegion\<close> and \<^verbatim>\<open>addedMessages\<close>; the flag is \<^verbatim>\<open>messageIncluded\<close>. There is no
  type check before \<^verbatim>\<open>location.trim()\<close>: on an entry that is not a string the call throws
  a \<^verbatim>\<open>TypeError\<close>, which leaves both loops and the function.
\<close>

fun scanLocations ::
  "locationCache \<Rightarrow> bounds \<Rightarrow> msg \<Rightarrow> json list \<Rightarrow> bool \<Rightarrow> msg list \<times> string set \<Rightarrow>
   error + (msg list \<times> string set)" where
  "scanLocations cache regionBounds m [] messageIncluded acc = Inr acc"
| "scanLocations cache regionBounds m (location # rest) messageIncluded acc =
     (if messageIncluded then scanLocations cache regionBounds m rest messageIncluded acc
      else
        (case location of
           JStr l \<Rightarrow>
             (case cache (locationKey l) of
                Some (Some c) \<Rightarrow>
                  (if isLocationInBounds c regionBounds then
                     (if messageId m \<notin> snd acc
                      then scanLocations cache regionBounds m rest True
                             (fst acc @ [m], insert (messageId m) (snd acc))
                      else scanLocations cache regionBounds m rest messageIncluded acc)
                   else scanLocations cache regionBounds m rest messageIncluded acc)
              | _ \<Rightarrow> scanLocations cache regionBounds m rest messageIncluded acc)
         | _ \<Rightarrow> Inl TypeError))"

text \<open>The outer \<^verbatim>\<open>forEach\<close> over \<^verbatim>\<open>allMessages\<close> (lines 598-624).\<close>

fun scanMessages ::
  "locationCache \<Rightarrow> bounds \<Rightarrow> msg list \<Rightarrow> msg list \<times> string set \<Rightarrow>
   error + (msg list \<times> string set)" where
  "scanMessages cache regionBounds [] acc = Inr acc"
| "scanMessages cache regionBounds (m # rest) acc =
     (case scanLocations cache regionBounds m (locations m) False acc of
        Inl e \<Rightarrow> Inl e
      | Inr acc' \<Rightarrow> scanMessages cache regionBounds rest acc')"

text \<open>
  \<open>dateValue\<close> is the host's \<^verbatim>\<open>new Date(s)\<close> as a time value: an integer number of
  milliseconds, or \<open>None\<close> for an invalid date, whose time value is \<^verbatim>\<open>NaN\<close>. Time values
  are below \<open>2 ^ 53\<close> in magnitude, so the sign of a difference of two of them is exact.
\<close>

definition timeOf :: "(string \<Rightarrow> int option) \<Rightarrow> msg \<Rightarrow> int" where
  "timeOf dateValue m = (case dateValue (date m) of Some t \<Rightarrow> t | None \<Rightarrow> 0)"

text \<open>
  What \<^verbatim>\<open>Array.prototype.sort\<close> returns. With the comparator
  \<^verbatim>\<open>new Date(b.date) - new Date(a.date)\<close> and dates that all parse, the list sorted by
  descending time value, stably: \<open>Sorted\<close>. When a date does not parse the comparator
  yields \<^verbatim>\<open>NaN\<close>, it is no consistent comparator, and the order of the result is the
  engine's choice: \<open>EngineOrder xs\<close> is some permutation of \<open>xs\<close>.
\<close>

datatype sortResult = Sorted "msg list" | EngineOrder "msg list"

text \<open>\<^verbatim>\<open>findMessagesInRegion\<close> (lines 593-629).\<close>

definition findMessagesInRegion ::
  "(string \<Rightarrow> int option) \<Rightarrow> locationCache \<Rightarrow> msg list \<Rightarrow> bounds \<Rightarrow> error + sortResult" where
  "findMessagesInRegion dateValue cache allMessages regionBounds =
     (case scanMessages cache regionBounds allMessages ([], {}) of
        Inl e \<Rightarrow> Inl e
      | Inr acc \<Rightarrow>
          Inr (if list_all (\<lambda>m. dateValue (date m) \<noteq> None) (fst acc)
               then Sorted (sort_key (\<lambda>m. - timeOf dateValue m) (fst acc))
               else EngineOrder (fst acc)))"

section \<open>Edit distance (\<^verbatim>\<open>levenshteinDistance\<close>, the same in both files)\<close>

text \<open>
  The table \<^verbatim>\<open>matrix\<close> has one row per prefix of \<^verbatim>\<open>str2\<close> and one column per prefix of
  \<^verbatim>\<open>str1\<close>. Its cells start as \<^verbatim>\<open>null\<close>, which arithmetic reads as 0 and which is
  modelled as 0. \<^verbatim>\<open>matrix[j][i] = v\<close> is \<open>setCell\<close>; the loops keep \<open>j\<close> and \<open>i\<close> within the
  table, so no access is out of range (\<open>rowsDone\<close> and \<open>cellsDone\<close> below carry the shape).
  Strings are lists of code units of any type.
\<close>

definition setCell :: "nat list list \<Rightarrow> nat \<Rightarrow> nat \<Rightarrow> nat \<Rightarrow> nat list list" where
  "setCell matrix j i v = matrix[j := (matrix ! j)[i := v]]"

text \<open>The body of the inner loop (lines 800-805 of \<^verbatim>\<open>script.js\<close>).\<close>

definition fillCell :: "'a list \<Rightarrow> 'a list \<Rightarrow> nat \<Rightarrow> nat \<Rightarrow> nat list list \<Rightarrow> nat list list" where
  "fillCell str1 str2 j i matrix =
     (let cost = (if str1 ! (i - 1) = str2 ! (j - 1) then 0 else 1)
      in setCell matrix j i
           (min (min (matrix ! j ! (i - 1) + 1) (matrix ! (j - 1) ! i + 1))
                (matrix ! (j - 1) ! (i - 1) + cost)))"

text \<open>
  The four loops: the first row, the first column, then the rows from 1 with the columns
  from 1 in each. A loop \<^verbatim>\<open>for (let i = a; i <= b; i++)\<close> is a fold over \<open>[a..<b + 1]\<close>.
\<close>

definition levenshteinDistance :: "'a list \<Rightarrow> 'a list \<Rightarrow> nat" where
  "levenshteinDistance str1 str2 =
     (let matrix0 = replicate (length str2 + 1) (replicate (length str1 + 1) 0);
          matrix1 = fold (\<lambda>i matrix. setCell matrix 0 i i) [0..<length str1 + 1] matrix0;
          matrix2 = fold (\<lambda>j matrix. setCell matrix j 0 j) [0..<length str2 + 1] matrix1;
          matrix3 = fold (\<lambda>j matrix. fold (fillCell str1 str2 j) [1..<length str1 + 1] matrix)
                      [1..<length str2 + 1] matrix2
      in matrix3 ! length str2 ! length str1)"

text \<open>
  The Levenshtein distance as it is defined: by recursion on the two strings, an insertion,
  a deletion and a substitution costing 1 each.
\<close>

fun editDistance :: "'a list \<Rightarrow> 'a list \<Rightarrow> nat" where
  "editDistance [] ys = length ys"
| "editDistance (x # xs) [] = length (x # xs)"
| "editDistance (x # xs) (y # ys) =
     min (min (editDistance xs (y # ys) + 1) (editDistance (x # xs) ys + 1))
         (editDistance xs ys + (if x = y then 0 else 1))"

text \<open>
  \<open>transforms n xs ys\<close>: \<open>n\<close> single-character insertions, deletions and substitutions,
  applied from left to right, turn \<open>xs\<close> into \<open>ys\<close>.
\<close>

inductive transforms :: "nat \<Rightarrow> 'a list \<Rightarrow> 'a list \<Rightarrow> bool" where
  finish: "transforms 0 [] []"
| keep: "transforms n xs ys \<Longrightarrow> transforms n (x # xs) (x # ys)"
| substitution: "transforms n xs ys \<Longrightarrow> transforms (Suc n) (x # xs) (y # ys)"
| insertion: "transforms n xs ys \<Longrightarrow> transforms (Suc n) xs (y # ys)"
| deletion: "transforms n xs ys \<Longrightarrow> transforms (Suc n) (x # xs) ys"

text \<open>Invariants of the loops: the shape of the table, finished rows, finished cells.\<close>

definition wellShaped :: "nat \<Rightarrow> nat \<Rightarrow> nat list list \<Rightarrow> bool" where
  "wellShaped m n M = (length M = n + 1 \<and> (\<forall>k \<le> n. length (M ! k) = m + 1))"

definition rowsDone :: "'a list \<Rightarrow> 'a list \<Rightarrow> nat \<Rightarrow> nat list list \<Rightarrow> bool" where
  "rowsDone s1 s2 k M =
     (wellShaped (length s1) (length s2) M
      \<and> (\<forall>j \<le> length s2. M ! j ! 0 = j)
      \<and> (\<forall>j < k. \<forall>i \<le> length s1. M ! j ! i = editDistance (take i s1) (take j s2)))"

definition cellsDone :: "'a list \<Rightarrow> 'a list \<Rightarrow> nat \<Rightarrow> nat \<Rightarrow> nat list list \<Rightarrow> bool" where
  "cellsDone s1 s2 j k M =
     (rowsDone s1 s2 j M
      \<and> (\<forall>i < k. M ! j ! i = editDistance (take i s1) (take j s2)))"

section \<open>Properties of the stores, and example data\<close>

text \<open>The store holds a region entity with this name and these bounds that lists \<open>m\<close>.\<close>

definition hasRegion :: "string \<Rightarrow> bounds \<Rightarrow> msg \<Rightarrow> mapState \<Rightarrow> bool" where
  "hasRegion l b m st =
     (\<exists>e \<in> set (regionStore st).
        name (snd e) = l \<and> bounds (snd e) = b \<and> m \<in> set (messages (snd e)))"

text \<open>The rectangle layer holds a rectangle that Leaflet keeps with these bounds and whose
  popup shows \<open>m\<close>.\<close>

definition hasRectangle :: "bounds \<Rightarrow> msg \<Rightarrow> mapState \<Rightarrow> bool" where
  "hasRectangle b m st =
     (\<exists>k. (k, b) \<in> set (rectangleLayerGroup st) \<and> (k, m) \<in> set (messageStore st))"

text \<open>
  The centre of a region entity is the midpoint of its bounds: as the double the code
  computes, and as the exact number.
\<close>

definition centerIsDoubleMidpoint :: "region \<Rightarrow> bool" where
  "centerIsDoubleMidpoint r =
     (center r = (js_quot (js_add (bnorth (bounds r)) (bsouth (bounds r))) 2,
                  js_quot (js_add (beast (bounds r)) (bwest (bounds r))) 2))"

definition centerIsMidpoint :: "region \<Rightarrow> bool" where
  "centerIsMidpoint r =
     (center r = ((bnorth (bounds r) + bsouth (bounds r)) / 2,
                  (beast (bounds r) + bwest (bounds r)) / 2))"

text \<open>Messages of channel \<open>news\<close> without an id, and a time value for two dates.\<close>

definition newsMsg :: "string \<Rightarrow> string \<Rightarrow> json list \<Rightarrow> msg" where
  "newsMsg t d ls = \<lparr>msg_id = None, msg_text = t, cleaned_text = t, channel = ''news'',
                     date = d, locations = ls\<rparr>"

definition exampleDateValue :: "string \<Rightarrow> int option" where
  "exampleDateValue d =
     (if d = ''2024-01-01'' then Some 1704067200000
      else if d = ''2024-01-02'' then Some 1704153600000 else None)"

definition gazaStrip :: bounds where
  "gazaStrip = \<lparr>bnorth = 32, bsouth = 31, beast = 35, bwest = 34\<rparr>"

text \<open>Bounds with north below south and east below west.\<close>

definition invertedBox :: bounds where
  "invertedBox = \<lparr>bnorth = 31, bsouth = 32, beast = 34, bwest = 35\<rparr>"

text \<open>Bounds whose north and south are the doubles nearest to 31.4 and 31.2.\<close>

definition narrowBox :: bounds where
  "narrowBox = \<lparr>bnorth = 4419157134357299 / 140737488355328,
                 bsouth = 8782019273372467 / 281474976710656, beast = 35, bwest = 34\<rparr>"

text \<open>\<^verbatim>\<open>typeof v === 'string'\<close>.\<close>

definition isString :: "json \<Rightarrow> bool" where
  "isString v = (case v of JStr l \<Rightarrow> True | _ \<Rightarrow> False)"

text \<open>
  Two messages without id that differ in text and channel, whose texts, dates and channels
  joined by underscores give the same string.
\<close>

definition alertA :: msg where
  "alertA = \<lparr>msg_id = None, msg_text = ''alert'', cleaned_text = ''alert'',
             channel = ''2024-01-01_live'', date = ''2024-01-01'',
             locations = [JStr ''Gaza'']\<rparr>"

definition alertB :: msg where
  "alertB = \<lparr>msg_id = None, msg_text = ''alert_2024-01-01'', cleaned_text = ''alert'',
             channel = ''live'', date = ''2024-01-01'', locations = [JStr ''Rafah'']\<rparr>"

text \<open>A raw cache with capitalised keys: a point and a box, both inside \<open>gazaStrip\<close>.\<close>

definition rawCache :: "(string \<times> coord option) list" where
  "rawCache =
     [(''Gaza'', Some (pointCoord 31.5 34.47)),
      (''Rafah'', Some (boxCoord \<lparr>bnorth = 31.4, bsouth = 31.2, beast = 34.4, bwest = 34.2\<rparr>))]"

text \<open>
  What the query computes on well-formed input, written directly: a location entry matches
  when it is a string whose cache entry lies in the bounds; a message matches when one of
  its locations does; of the matching messages, the first of each key is kept.
\<close>

definition locationMatches :: "locationCache \<Rightarrow> bounds \<Rightarrow> json \<Rightarrow> bool" where
  "locationMatches cache regionBounds v =
     (case v of
        JStr l \<Rightarrow> (case cache (locationKey l) of
                     Some (Some c) \<Rightarrow> isLocationInBounds c regionBounds
                   | _ \<Rightarrow> False)
      | _ \<Rightarrow> False)"

definition anyLocationMatches :: "locationCache \<Rightarrow> bounds \<Rightarrow> msg \<Rightarrow> bool" where
  "anyLocationMatches cache regionBounds m =
     list_ex (locationMatches cache regionBounds) (locations m)"

fun firstByKey :: "('a \<Rightarrow> 'k) \<Rightarrow> 'k set \<Rightarrow> 'a list \<Rightarrow> 'a list" where
  "firstByKey key seen [] = []"
| "firstByKey key seen (x # xs) =
     (if key x \<in> seen then firstByKey key seen xs
      else x # firstByKey key (insert (key x) seen) xs)"

section \<open>Overlap is symmetric and reflexive\<close>

lemma regionsOverlap_iff:
  "regionsOverlap a b =
     (\<not> (bsouth a > bnorth b \<or> bnorth a < bsouth b \<or> bwest a > beast b \<or> beast a < bwest b))"
  by (simp add: regionsOverlap_def isLocationInBounds_def boxCoord_def)

text \<open>
  Claim C8. The overlap predicate is symmetric for all regions; on regions that satisfy the
  bounds invariant it is reflexive; and two such regions that touch on an edge
  (\<open>a.north = b.south\<close>, with longitude ranges that meet) overlap, since the separation
  tests are strict.
\<close>

theorem regionsOverlap_sym_refl_touch:
  "regionsOverlap a b = regionsOverlap b a
   \<and> (validBounds a \<longrightarrow> regionsOverlap a a)
   \<and> (validBounds a \<and> validBounds b \<and> bnorth a = bsouth b
        \<and> bwest a \<le> beast b \<and> bwest b \<le> beast a \<longrightarrow> regionsOverlap a b)"
  by (auto simp: regionsOverlap_iff validBounds_def)

theorem regionsOverlap_sym_refl_touch_witness:
  "validBounds \<lparr>bnorth = 32, bsouth = 31, beast = 35, bwest = 34\<rparr>
   \<and> validBounds \<lparr>bnorth = 33, bsouth = 32, beast = 36, bwest = 35\<rparr>
   \<and> regionsOverlap \<lparr>bnorth = 32, bsouth = 31, beast = 35, bwest = 34\<rparr>
                    \<lparr>bnorth = 32, bsouth = 31, beast = 35, bwest = 34\<rparr>
   \<and> regionsOverlap \<lparr>bnorth = 32, bsouth = 31, beast = 35, bwest = 34\<rparr>
                    \<lparr>bnorth = 33, bsouth = 32, beast = 36, bwest = 35\<rparr>
   \<and> regionsOverlap \<lparr>bnorth = 33, bsouth = 32, beast = 36, bwest = 35\<rparr>
                    \<lparr>bnorth = 32, bsouth = 31, beast = 35, bwest = 34\<rparr>"
  using regionsOverlap_sym_refl_touch
          [of "\<lparr>bnorth = 32, bsouth = 31, beast = 35, bwest = 34\<rparr>"
              "\<lparr>bnorth = 33, bsouth = 32, beast = 36, bwest = 35\<rparr>"]
        regionsOverlap_sym_refl_touch
          [of "\<lparr>bnorth = 32, bsouth = 31, beast = 35, bwest = 34\<rparr>"
              "\<lparr>bnorth = 32, bsouth = 31, beast = 35, bwest = 34\<rparr>"]
  by (auto simp: validBounds_def)

section \<open>Evaluating the rounding\<close>

text \<open>
  \<open>fl\<close> of a number whose magnitude, scaled by \<open>2 ^ j\<close>, lies in the range of a 53-bit
  significand is that scaled number rounded to an integer and scaled back.
\<close>

lemma scaleUp_steps:
  assumes "4503599627370496 \<le> m * 2 ^ j" "m * 2 ^ j < 9007199254740992"
    "- 1074 \<le> e - int j"
  shows "scaleUp m e = (m * 2 ^ j, e - int j)"
  using assms
proof (induction j arbitrary: m e)
  case 0
  then show ?case by (subst scaleUp.simps) simp
next
  case (Suc j)
  have p: "(1::real) \<le> 2 ^ j" by simp
  have "m * 2 * 2 ^ j < 9007199254740992"
    using Suc.prems(2) by (simp add: mult.assoc)
  moreover have "0 < m * 2 ^ Suc j"
    using Suc.prems(1) by linarith
  then have "0 < m"
    by (simp add: zero_less_mult_iff)
  moreover have "m * 2 * 1 \<le> m * 2 * 2 ^ j"
    using p \<open>0 < m\<close> by (intro mult_left_mono) simp_all
  ultimately have "m * 2 * 1 < 9007199254740992"
    by linarith
  then have small: "m < 4503599627370496" by simp
  have e: "- 1074 < e" using Suc.prems(3) by simp
  have "scaleUp (2 * m) (e - 1) = (2 * m * 2 ^ j, e - 1 - int j)"
    using Suc.prems by (intro Suc.IH) (simp_all add: mult.assoc mult.left_commute)
  then show ?case
    using small e by (subst scaleUp.simps) (simp add: mult.assoc mult.left_commute)
qed

lemma fl_eval:
  assumes "4503599627370496 \<le> \<bar>x\<bar> * 2 ^ j" "\<bar>x\<bar> * 2 ^ j < 9007199254740992" "j \<le> 1074"
  shows "fl x = sgn x * of_int (roundHalfEven (\<bar>x\<bar> * 2 ^ j)) / 2 ^ j"
proof -
  have p: "(1::real) \<le> 2 ^ j" by simp
  have "\<bar>x\<bar> * 1 \<le> \<bar>x\<bar> * 2 ^ j"
    using p by (intro mult_left_mono) simp_all
  then have lt: "\<bar>x\<bar> < 9007199254740992" using assms(2) by simp
  have nz: "x \<noteq> 0" using assms(1) by auto
  have d: "scaleDown \<bar>x\<bar> 0 = (\<bar>x\<bar>, 0)"
    using lt by (subst scaleDown.simps) simp
  have u: "scaleUp \<bar>x\<bar> 0 = (\<bar>x\<bar> * 2 ^ j, 0 - int j)"
    using assms by (intro scaleUp_steps) simp_all
  have u': "scaleUp \<bar>x\<bar> 0 = (\<bar>x\<bar> * 2 ^ j, - int j)"
    using u by simp
  show ?thesis
    using nz by (simp add: fl_def d u' power_int_minus divide_inverse)
qed


text \<open>The thresholds of \<^verbatim>\<open>updateRegionVisibility\<close> and the numbers of the examples, as doubles.\<close>

lemma fl_0_1: "fl (0.1) = 3602879701896397 / 36028797018963968"
  by (simp add: fl_eval [where j = 56] roundHalfEven_def)

lemma fl_0_05: "fl (0.05) = 3602879701896397 / 72057594037927936"
  by (simp add: fl_eval [where j = 57] roundHalfEven_def)

lemma fl_0_01: "fl (0.01) = 5764607523034235 / 576460752303423488"
  by (simp add: fl_eval [where j = 59] roundHalfEven_def)

lemma fl_0_4: "fl (0.4) = 3602879701896397 / 9007199254740992"
  by (simp add: fl_eval [where j = 54] roundHalfEven_def)

lemma fl_0_6: "fl (0.6) = 5404319552844595 / 9007199254740992"
  by (simp add: fl_eval [where j = 53] roundHalfEven_def)

lemma fl_0_5: "fl (0.5) = 1 / 2"
  by (simp add: fl_eval [where j = 53] roundHalfEven_def)


lemma fl_thresholds:
  "0 \<le> fl 0.4" "fl 0.4 < 2 ^ 1024" "0 \<le> fl 0.6" "fl 0.6 < 2 ^ 1024"
  unfolding fl_0_4 fl_0_6 by simp_all

lemma fl_0_05_less_0_1: "fl 0.05 < fl 0.1"
  unfolding fl_0_05 fl_0_1 by simp

lemma fl_0_4_less_0_5: "fl 0.4 < fl 0.5"
  unfolding fl_0_4 fl_0_5 by simp

lemma fl_tenth: "fl (1 / 10) = 3602879701896397 / 36028797018963968"
  by (simp add: fl_eval [where j = 56] roundHalfEven_def)

lemma fl_twentieth: "fl (1 / 20) = 3602879701896397 / 72057594037927936"
  by (simp add: fl_eval [where j = 57] roundHalfEven_def)

lemma fl_hundredth: "fl (1 / 100) = 5764607523034235 / 576460752303423488"
  by (simp add: fl_eval [where j = 59] roundHalfEven_def)

lemma fl_two_fifths: "fl (2 / 5) = 3602879701896397 / 9007199254740992"
  by (simp add: fl_eval [where j = 54] roundHalfEven_def)

lemma fl_three_fifths: "fl (3 / 5) = 5404319552844595 / 9007199254740992"
  by (simp add: fl_eval [where j = 53] roundHalfEven_def)

lemma fl_half: "fl (1 / 2) = 1 / 2"
  by (simp add: fl_eval [where j = 53] roundHalfEven_def)

lemma fl_one: "fl (1) = 1"
  by (simp add: fl_eval [where j = 52] roundHalfEven_def)

lemma fl_two: "fl (2) = 2"
  by (simp add: fl_eval [where j = 51] roundHalfEven_def)

lemma fl_four: "fl (4) = 4"
  by (simp add: fl_eval [where j = 50] roundHalfEven_def)

lemma fl_quarter: "fl (1 / 4) = 1 / 4"
  by (simp add: fl_eval [where j = 54] roundHalfEven_def)

lemma fl_sixteenth: "fl (1 / 16) = 1 / 16"
  by (simp add: fl_eval [where j = 56] roundHalfEven_def)

lemma fl_sixtyfourth: "fl (1 / 64) = 1 / 64"
  by (simp add: fl_eval [where j = 58] roundHalfEven_def)

lemma fl_double_0_05: "fl (3602879701896397 / 72057594037927936) = 3602879701896397 / 72057594037927936"
  by (simp add: fl_eval [where j = 57] roundHalfEven_def)

lemmas fl_values = fl_tenth fl_twentieth fl_hundredth fl_two_fifths fl_three_fifths fl_half fl_one fl_two fl_four fl_quarter fl_sixteenth fl_sixtyfourth fl_double_0_05

lemma fl_zero: "fl 0 = 0"
  by (simp add: fl_def)




lemma fl_span_34_05: "fl (3518437208883 / 70368744177664) = 3518437208883 / 70368744177664"
  by (simp add: fl_eval [where j = 57] roundHalfEven_def)

lemma fl_span_34_05_quarter:
  "fl (3518437208883 / 281474976710656) = 3518437208883 / 281474976710656"
  by (simp add: fl_eval [where j = 59] roundHalfEven_def)


section \<open>Visibility classification and paint order\<close>

lemma updateRegionVisibility_nth:
  assumes "i < length layers"
  shows "updateRegionVisibility True z vp layers ! i =
           paintItem z (length layers) i (sort_key area (map (measureLayer vp) layers) ! i)"
  using assms by (simp add: updateRegionVisibility_def Let_def nth_enumerate_eq)

lemma measureLayer_spans:
  "latSpan (measureLayer vp (k, lb)) = fl (bnorth lb - bsouth lb)"
  "lonSpan (measureLayer vp (k, lb)) = fl (beast lb - bwest lb)"
  "area (measureLayer vp (k, lb)) = fl (fl (bnorth lb - bsouth lb) * fl (beast lb - bwest lb))"
  "layer (measureLayer vp (k, lb)) = k"
  by (simp_all add: measureLayer_def Let_def js_sub_def js_times_def)

lemma js_gt_finiteOrInf:
  assumes "0 \<le> t" "t < 2 ^ 1024"
  shows "js_gt (finiteOrInf y) t = (y > t)"
  using assms by (auto simp: js_gt_def finiteOrInf_def)

lemma finiteOrInf_Fin: "\<bar>y\<bar> < 2 ^ 1024 \<Longrightarrow> finiteOrInf y = Fin y"
  by (auto simp: finiteOrInf_def)

lemma relativeArea_eq:
  "relativeArea (measureLayer vp (k, lb)) =
     js_mul (js_div (fl (bnorth lb - bsouth lb)) (fl (bnorth vp - bsouth vp)))
            (js_div (fl (beast lb - bwest lb)) (fl (beast vp - bwest vp)))"
  by (simp add: measureLayer_def Let_def js_sub_def)

lemma relativeArea_finite:
  assumes "fl (bnorth vp - bsouth vp) \<noteq> 0" "fl (beast vp - bwest vp) \<noteq> 0"
    "\<bar>fl (fl (bnorth lb - bsouth lb) / fl (bnorth vp - bsouth vp))\<bar> < 2 ^ 1024"
    "\<bar>fl (fl (beast lb - bwest lb) / fl (beast vp - bwest vp))\<bar> < 2 ^ 1024"
  shows "relativeArea (measureLayer vp (k, lb)) =
           finiteOrInf (fl (fl (fl (bnorth lb - bsouth lb) / fl (bnorth vp - bsouth vp))
                  * fl (fl (beast lb - bwest lb) / fl (beast vp - bwest vp))))"
  using assms(1,2)
  by (simp add: relativeArea_eq js_times_def js_quot_def js_div_def
      js_mul_def finiteOrInf_Fin [OF assms(3)] finiteOrInf_Fin [OF assms(4)])

lemma sgn_prod_pos: "(0 < sgn a * sgn b) = (0 < a * (b::real))"
  by (simp add: sgn_real_def zero_less_mult_iff)

lemma js_gt_infinite_factor:
  assumes "(\<forall>a. x \<noteq> Fin a) \<or> (\<forall>b. y \<noteq> Fin b)"
  shows "js_gt (js_mul x y) t = (0 < js_sign x * js_sign y)"
  using assms
  by (cases x; cases y)
     (auto simp: js_mul_def js_gt_def js_sign_def Let_def zero_less_mult_iff sgn_real_def)

lemma js_sign_js_div: "js_sign (js_div a b) = sgn (if b = 0 then a else fl (a / b))"
  by (auto simp: js_div_def js_sign_def finiteOrInf_def js_quot_def sgn_real_def)

lemma js_div_Fin_iff: "(\<exists>c. js_div a b = Fin c) = (b \<noteq> 0 \<and> \<bar>fl (a / b)\<bar> < 2 ^ 1024)"
  by (auto simp: js_div_def finiteOrInf_def js_quot_def)

lemma relativeArea_degenerate:
  assumes "fl (bnorth vp - bsouth vp) = 0 \<or> fl (beast vp - bwest vp) = 0
     \<or> 2 ^ 1024 \<le> \<bar>fl (fl (bnorth lb - bsouth lb) / fl (bnorth vp - bsouth vp))\<bar>
     \<or> 2 ^ 1024 \<le> \<bar>fl (fl (beast lb - bwest lb) / fl (beast vp - bwest vp))\<bar>"
  shows "js_gt (relativeArea (measureLayer vp (k, lb))) t =
           (0 < (if fl (bnorth vp - bsouth vp) = 0 then fl (bnorth lb - bsouth lb)
                 else fl (fl (bnorth lb - bsouth lb) / fl (bnorth vp - bsouth vp)))
              * (if fl (beast vp - bwest vp) = 0 then fl (beast lb - bwest lb)
                 else fl (fl (beast lb - bwest lb) / fl (beast vp - bwest vp))))"
proof -
  let ?x = "js_div (fl (bnorth lb - bsouth lb)) (fl (bnorth vp - bsouth vp))"
  let ?y = "js_div (fl (beast lb - bwest lb)) (fl (beast vp - bwest vp))"
  have "\<not> (\<exists>c. ?x = Fin c) \<or> \<not> (\<exists>c. ?y = Fin c)"
    unfolding js_div_Fin_iff using assms by (auto simp: not_less)
  then have "(\<forall>a. ?x \<noteq> Fin a) \<or> (\<forall>b. ?y \<noteq> Fin b)"
    by blast
  then have "js_gt (js_mul ?x ?y) t = (0 < js_sign ?x * js_sign ?y)"
    by (rule js_gt_infinite_factor)
  then show ?thesis
    unfolding relativeArea_eq js_sign_js_div sgn_prod_pos .
qed

lemma updateRegionVisibility_length:
  "length (updateRegionVisibility True z vp layers) = length layers"
  by (simp add: updateRegionVisibility_def Let_def)

text \<open>
  Claim C6. For a shape with bounds \<open>lb\<close> in a viewport with bounds \<open>vp\<close>, the spans are
  the differences of the bounds as doubles, and the relative area is the product of the two
  span ratios as doubles. The shape is shown exactly when no zoom-band rule hides it: a
  span below 0.1 at zoom < 9, below 0.05 at 9 \<le> zoom < 11, below 0.01 at 11 \<le> zoom < 13;
  a relative area above 0.4 at zoom > 13, above 0.6 at 11 < zoom \<le> 13. When a viewport
  span is zero or a span ratio overflows, the relative area is infinite or NaN and exceeds
  either threshold exactly when the product of the signs of its factors is positive. So a shape of latitude span 0.05
  is hidden at zoom 8, a shape of relative area 0.5 is hidden at zoom 14, and
  \<^verbatim>\<open>updateRegionVisibility\<close> hides the rectangle at a position of the area-sorted list
  exactly when that classification says so.
\<close>

theorem shouldShow_zoom_bands:
  fixes vp lb :: bounds and z :: real and k i :: nat and layers :: "(nat \<times> bounds) list"
  defines "la \<equiv> fl (bnorth lb - bsouth lb)" and "lo \<equiv> fl (beast lb - bwest lb)"
    and "vla \<equiv> fl (bnorth vp - bsouth vp)" and "vlo \<equiv> fl (beast vp - bwest vp)"
  defines "qa \<equiv> fl (la / vla)" and "qo \<equiv> fl (lo / vlo)"
  defines "finiteRatios \<equiv> vla \<noteq> 0 \<and> vlo \<noteq> 0 \<and> \<bar>qa\<bar> < 2 ^ 1024 \<and> \<bar>qo\<bar> < 2 ^ 1024"
  defines "tooSmall \<equiv>
      (z < 9 \<and> (la < fl 0.1 \<or> lo < fl 0.1))
      \<or> (9 \<le> z \<and> z < 11 \<and> (la < fl 0.05 \<or> lo < fl 0.05))
      \<or> (11 \<le> z \<and> z < 13 \<and> (la < fl 0.01 \<or> lo < fl 0.01))"
  shows
   "(finiteRatios \<longrightarrow>
       shouldShow z (measureLayer vp (k, lb)) =
         (\<not> tooSmall
          \<and> \<not> (z > 13 \<and> fl (qa * qo) > fl 0.4)
          \<and> \<not> (11 < z \<and> z \<le> 13 \<and> fl (qa * qo) > fl 0.6)))
    \<and> (\<not> finiteRatios \<longrightarrow>
       shouldShow z (measureLayer vp (k, lb)) =
         (\<not> tooSmall
          \<and> \<not> (z > 11 \<and> 0 < (if vla = 0 then la else qa) * (if vlo = 0 then lo else qo))))
    \<and> (la = fl 0.05 \<longrightarrow> \<not> shouldShow 8 (measureLayer vp (k, lb)))
    \<and> (finiteRatios \<and> fl (qa * qo) = fl 0.5 \<longrightarrow> \<not> shouldShow 14 (measureLayer vp (k, lb)))
    \<and> (i < length layers \<longrightarrow>
        (snd (updateRegionVisibility True z vp layers ! i) = Hide) =
        (\<not> shouldShow z (sort_key area (map (measureLayer vp) layers) ! i)))"
proof -
  have small: "shouldShow z' (measureLayer vp (k, lb)) =
      (\<not> ((z' < 9 \<and> (la < fl 0.1 \<or> lo < fl 0.1))
          \<or> (9 \<le> z' \<and> z' < 11 \<and> (la < fl 0.05 \<or> lo < fl 0.05))
          \<or> (11 \<le> z' \<and> z' < 13 \<and> (la < fl 0.01 \<or> lo < fl 0.01)))
       \<and> \<not> (z' > 13 \<and> js_gt (relativeArea (measureLayer vp (k, lb))) (fl 0.4))
       \<and> \<not> (11 < z' \<and> z' \<le> 13 \<and> js_gt (relativeArea (measureLayer vp (k, lb))) (fl 0.6)))"
    for z'
    unfolding shouldShow_def measureLayer_spans la_def lo_def by (auto simp: Let_def)
  have fin: "js_gt (relativeArea (measureLayer vp (k, lb))) t = (fl (qa * qo) > t)"
    if "finiteRatios" "0 \<le> t" "t < 2 ^ 1024" for t
  proof -
    have "relativeArea (measureLayer vp (k, lb)) = finiteOrInf (fl (qa * qo))"
      using that(1) relativeArea_finite [of vp lb k]
      by (simp add: finiteRatios_def qa_def qo_def la_def lo_def vla_def vlo_def)
    then show ?thesis
      using js_gt_finiteOrInf [OF that(2,3)] by simp
  qed
  have deg: "js_gt (relativeArea (measureLayer vp (k, lb))) t
               = (0 < (if vla = 0 then la else qa) * (if vlo = 0 then lo else qo))"
    if "\<not> finiteRatios" for t
    using that relativeArea_degenerate [of vp lb k t]
    by (simp add: finiteRatios_def qa_def qo_def la_def lo_def vla_def vlo_def not_less)
  have c1: "finiteRatios \<longrightarrow>
       shouldShow z (measureLayer vp (k, lb)) =
         (\<not> tooSmall
          \<and> \<not> (z > 13 \<and> fl (qa * qo) > fl 0.4)
          \<and> \<not> (11 < z \<and> z \<le> 13 \<and> fl (qa * qo) > fl 0.6))"
  proof
    assume f: "finiteRatios"
    show "shouldShow z (measureLayer vp (k, lb)) =
         (\<not> tooSmall
          \<and> \<not> (z > 13 \<and> fl (qa * qo) > fl 0.4)
          \<and> \<not> (11 < z \<and> z \<le> 13 \<and> fl (qa * qo) > fl 0.6))"
      unfolding small [of z] tooSmall_def
        fin [OF f fl_thresholds(1,2)] fin [OF f fl_thresholds(3,4)]
      by simp
  qed
  have c2: "\<not> finiteRatios \<longrightarrow>
       shouldShow z (measureLayer vp (k, lb)) =
         (\<not> tooSmall
          \<and> \<not> (z > 11 \<and> 0 < (if vla = 0 then la else qa) * (if vlo = 0 then lo else qo)))"
  proof
    assume d: "\<not> finiteRatios"
    show "shouldShow z (measureLayer vp (k, lb)) =
         (\<not> tooSmall
          \<and> \<not> (z > 11 \<and> 0 < (if vla = 0 then la else qa) * (if vlo = 0 then lo else qo)))"
      unfolding small [of z] deg [OF d] tooSmall_def by auto
  qed
  have c3: "la = fl 0.05 \<longrightarrow> \<not> shouldShow 8 (measureLayer vp (k, lb))"
  proof
    assume "la = fl 0.05"
    then have "la < fl 0.1"
      using fl_0_05_less_0_1 by (simp only:)
    then show "\<not> shouldShow 8 (measureLayer vp (k, lb))"
      unfolding small [of 8] by simp
  qed
  have c4: "finiteRatios \<and> fl (qa * qo) = fl 0.5 \<longrightarrow> \<not> shouldShow 14 (measureLayer vp (k, lb))"
  proof
    assume a: "finiteRatios \<and> fl (qa * qo) = fl 0.5"
    then have "fl (qa * qo) > fl 0.4"
      using fl_0_4_less_0_5 by (simp only:)
    moreover from a have "finiteRatios"
      by blast
    ultimately have "js_gt (relativeArea (measureLayer vp (k, lb))) (fl 0.4)"
      using fin [OF _ fl_thresholds(1,2)] by blast
    then show "\<not> shouldShow 14 (measureLayer vp (k, lb))"
      unfolding small [of 14] by simp
  qed
  have c5: "i < length layers \<longrightarrow>
        (snd (updateRegionVisibility True z vp layers ! i) = Hide) =
        (\<not> shouldShow z (sort_key area (map (measureLayer vp) layers) ! i))"
    by (simp add: updateRegionVisibility_nth paintItem_def)
  from c1 c2 c3 c4 c5 show ?thesis by blast
qed

theorem shouldShow_zoom_bands_witness:
  "\<not> shouldShow 8 (measureLayer \<lparr>bnorth = 35, bsouth = 31, beast = 38, bwest = 34\<rparr>
        (0, \<lparr>bnorth = 31.0625, bsouth = 31, beast = 35, bwest = 34\<rparr>))
   \<and> shouldShow 10 (measureLayer \<lparr>bnorth = 35, bsouth = 31, beast = 38, bwest = 34\<rparr>
        (0, \<lparr>bnorth = 31.0625, bsouth = 31, beast = 35, bwest = 34\<rparr>))
   \<and> snd (updateRegionVisibility True 8 \<lparr>bnorth = 35, bsouth = 31, beast = 38, bwest = 34\<rparr>
        [(0, \<lparr>bnorth = 31.0625, bsouth = 31, beast = 35, bwest = 34\<rparr>)] ! 0) = Hide
   \<and> \<not> shouldShow 8 (measureLayer \<lparr>bnorth = 35, bsouth = 31, beast = 38, bwest = 34\<rparr>
        (0, \<lparr>bnorth = 3602879701896397 / 72057594037927936, bsouth = 0, beast = 1, bwest = 0\<rparr>))
   \<and> \<not> shouldShow 14 (measureLayer \<lparr>bnorth = 35, bsouth = 31, beast = 38, bwest = 34\<rparr>
        (0, \<lparr>bnorth = 33, bsouth = 31, beast = 38, bwest = 34\<rparr>))
   \<and> \<not> shouldShow 12 (measureLayer \<lparr>bnorth = 31, bsouth = 31, beast = 38, bwest = 34\<rparr>
        (0, \<lparr>bnorth = 32, bsouth = 31, beast = 35, bwest = 34\<rparr>))
   \<and> \<not> shouldShow 10 (measureLayer \<lparr>bnorth = 35, bsouth = 31, beast = 38, bwest = 34\<rparr>
        (0, \<lparr>bnorth = 32, bsouth = 31, beast = 2396055739249459 / 70368744177664, bwest = 34\<rparr>))"
proof -
  let ?vp = "\<lparr>bnorth = 35, bsouth = 31, beast = 38, bwest = 34\<rparr>"
  let ?flat = "\<lparr>bnorth = 31, bsouth = 31, beast = 38, bwest = 34\<rparr>"
  let ?thin = "\<lparr>bnorth = 31.0625, bsouth = 31, beast = 35, bwest = 34\<rparr>"
  let ?low = "\<lparr>bnorth = 3602879701896397 / 72057594037927936, bsouth = 0, beast = 1, bwest = 0\<rparr>"
  let ?half = "\<lparr>bnorth = 33, bsouth = 31, beast = 38, bwest = 34\<rparr>"
  let ?unit = "\<lparr>bnorth = 32, bsouth = 31, beast = 35, bwest = 34\<rparr>"
  let ?east = "\<lparr>bnorth = 32, bsouth = 31, beast = 2396055739249459 / 70368744177664, bwest = 34\<rparr>"
  have s: "sort_key area (map (measureLayer ?vp) [(0::nat, ?thin)]) ! 0 = measureLayer ?vp (0, ?thin)"
    by simp
  have t1: "\<not> shouldShow 8 (measureLayer ?vp (0, ?thin))"
    using shouldShow_zoom_bands [where vp = ?vp and lb = ?thin and z = 8 and k = 0
        and i = 0 and layers = "[(0, ?thin)]"]
    by (simp add: fl_values)
  have t2: "shouldShow 10 (measureLayer ?vp (0, ?thin))"
    using shouldShow_zoom_bands [where vp = ?vp and lb = ?thin and z = 10 and k = 0
        and i = 0 and layers = "[(0, ?thin)]"]
    by (simp add: fl_values)
  have t3: "snd (updateRegionVisibility True 8 ?vp [(0, ?thin)] ! 0) = Hide"
    using shouldShow_zoom_bands [where vp = ?vp and lb = ?thin and z = 8 and k = 0
        and i = 0 and layers = "[(0, ?thin)]"] s
    by (simp add: fl_values)
  have t4: "\<not> shouldShow 8 (measureLayer ?vp (0, ?low))"
    using shouldShow_zoom_bands [where vp = ?vp and lb = ?low and z = 8 and k = 0
        and i = 0 and layers = "[]"]
    by (simp add: fl_values)
  have t5: "\<not> shouldShow 14 (measureLayer ?vp (0, ?half))"
    using shouldShow_zoom_bands [where vp = ?vp and lb = ?half and z = 14 and k = 0
        and i = 0 and layers = "[]"]
    by (simp add: fl_values)
  have t6: "\<not> shouldShow 12 (measureLayer ?flat (0, ?unit))"
    using shouldShow_zoom_bands [where vp = ?flat and lb = ?unit and z = 12 and k = 0
        and i = 0 and layers = "[]"]
    by (simp add: fl_values fl_zero)
  have t7: "\<not> shouldShow 10 (measureLayer ?vp (0, ?east))"
    using shouldShow_zoom_bands [where vp = ?vp and lb = ?east and z = 10 and k = 0
        and i = 0 and layers = "[]"]
    by (simp add: fl_values fl_span_34_05 fl_span_34_05_quarter)
  from t1 t2 t3 t4 t5 t6 t7 show ?thesis
    by blast
qed





section \<open>Ingestion\<close>

lemma placeLocation_preserves:
  assumes "\<And>c m l st. P st \<Longrightarrow> P (add c m l st)" and "P st"
  shows "P (placeLocation add cache m location st)"
  using assms by (auto simp: placeLocation_def split: json.splits option.splits)

lemma fold_placeLocation_preserves:
  assumes "\<And>c m l st. P st \<Longrightarrow> P (add c m l st)" and "P st"
  shows "P (fold (placeLocation add cache m) ls st)"
  using assms(2)
proof (induction ls arbitrary: st)
  case Nil
  then show ?case by simp
next
  case (Cons a ls)
  have "P (placeLocation add cache m a st)"
    using assms(1) Cons.prems by (rule placeLocation_preserves)
  then show ?case using Cons.IH by simp
qed

lemma fold_messages_preserves:
  assumes "\<And>c m l st. P st \<Longrightarrow> P (add c m l st)" and "P st"
  shows "P (fold (\<lambda>m st. fold (placeLocation add cache m) (locations m) st) msgs st)"
  using assms(2)
proof (induction msgs arbitrary: st)
  case Nil
  then show ?case by simp
next
  case (Cons m msgs)
  have "P (fold (placeLocation add cache m) (locations m) st)"
    using assms(1) Cons.prems by (rule fold_placeLocation_preserves)
  then show ?case using Cons.IH by simp
qed

lemma sameRegion_bounds:
  "sameRegion l b e \<Longrightarrow> name (snd e) = l \<and> bounds (snd e) = b"
  by (cases "bounds (snd e)"; cases b) (simp add: sameRegion_def)

lemma pushMessage_fields:
  "name (snd (pushMessage rid m e)) = name (snd e)"
  "bounds (snd (pushMessage rid m e)) = bounds (snd e)"
  "center (snd (pushMessage rid m e)) = center (snd e)"
  "set (messages (snd e)) \<subseteq> set (messages (snd (pushMessage rid m e)))"
  "m \<in> set (messages (snd (pushMessage (fst e) m e)))"
  by (auto simp: pushMessage_def)

lemma regionStore_addLocationToMap:
  "regionStore (addLocationToMap c m l st) =
     (case (north c, south c, east c, west c) of
        (Some n, Some s, Some e, Some w) \<Rightarrow>
          (let b = \<lparr>bnorth = n, bsouth = s, beast = e, bwest = w\<rparr>
           in case find (sameRegion l b) (regionStore st) of
                Some existing \<Rightarrow> map (pushMessage (fst existing) m) (regionStore st)
              | None \<Rightarrow> regionStore st @
                  [(nextRegionId st, \<lparr>name = l, bounds = b, messages = [m],
                                      center = (js_quot (js_add n s) 2,
                                                js_quot (js_add e w) 2)\<rparr>)])
      | _ \<Rightarrow> regionStore st)"
  by (simp add: addLocationToMap_def Let_def split: option.splits)

lemma regionStore_addLocationToMap_cases:
  "regionStore (addLocationToMap c m l st) = regionStore st
   \<or> (\<exists>rid. regionStore (addLocationToMap c m l st) = map (pushMessage rid m) (regionStore st))
   \<or> (\<exists>r. regionStore (addLocationToMap c m l st) = regionStore st @ [r])"
  by (auto simp: regionStore_addLocationToMap Let_def simp del: map_eq_conv split: option.splits)

lemma addLocationToMap_keeps_region:
  assumes "hasRegion l b m st"
  shows "hasRegion l b m (addLocationToMap c m' l' st)"
proof -
  from assms obtain e where e: "e \<in> set (regionStore st)" "name (snd e) = l"
    "bounds (snd e) = b" "m \<in> set (messages (snd e))"
    by (auto simp: hasRegion_def)
  consider (same) "regionStore (addLocationToMap c m' l' st) = regionStore st"
    | (push) rid where
        "regionStore (addLocationToMap c m' l' st) = map (pushMessage rid m') (regionStore st)"
    | (new) r where "regionStore (addLocationToMap c m' l' st) = regionStore st @ [r]"
    using regionStore_addLocationToMap_cases [of c m' l' st] by blast
  then show ?thesis
  proof cases
    case same
    with e show ?thesis by (auto simp: hasRegion_def)
  next
    case (push rid)
    have "pushMessage rid m' e \<in> set (regionStore (addLocationToMap c m' l' st))"
      using e(1) push by simp
    moreover have "m \<in> set (messages (snd (pushMessage rid m' e)))"
      using e(4) pushMessage_fields(4) [of e rid m'] by blast
    ultimately show ?thesis
      unfolding hasRegion_def using e(2,3) pushMessage_fields(1,2) [of rid m' e] by metis
  next
    case (new r)
    with e show ?thesis by (auto simp: hasRegion_def)
  qed
qed

lemma addLocationToMap_makes_region:
  assumes "north c = Some n" "south c = Some s" "east c = Some e" "west c = Some w"
  shows "hasRegion l \<lparr>bnorth = n, bsouth = s, beast = e, bwest = w\<rparr> m (addLocationToMap c m l st)"
proof (cases "find (sameRegion l \<lparr>bnorth = n, bsouth = s, beast = e, bwest = w\<rparr>) (regionStore st)")
  case None
  then show ?thesis
    using assms by (simp add: hasRegion_def regionStore_addLocationToMap)
next
  case (Some existing)
  then have ex: "existing \<in> set (regionStore st)"
    and sr: "sameRegion l \<lparr>bnorth = n, bsouth = s, beast = e, bwest = w\<rparr> existing"
    by (auto simp: find_Some_iff)
  have store: "regionStore (addLocationToMap c m l st) = map (pushMessage (fst existing) m) (regionStore st)"
    using assms Some by (simp add: regionStore_addLocationToMap)
  have "pushMessage (fst existing) m existing \<in> set (regionStore (addLocationToMap c m l st))"
    using ex store by simp
  then show ?thesis
    unfolding hasRegion_def
    using sameRegion_bounds [OF sr] pushMessage_fields(1,2,5)
    by metis
qed

lemma addLocationToMap_center:
  assumes "\<forall>e \<in> set (regionStore st). centerIsDoubleMidpoint (snd e)"
  shows "\<forall>e \<in> set (regionStore (addLocationToMap c m l st)). centerIsDoubleMidpoint (snd e)"
  using assms
  by (auto simp: regionStore_addLocationToMap Let_def centerIsDoubleMidpoint_def
           pushMessage_fields split: option.splits)

lemma addLocationToMap_script_keeps_rectangle:
  "hasRectangle b m st \<Longrightarrow> hasRectangle b m (addLocationToMap_script c m' l' st)"
  by (auto simp: hasRectangle_def addLocationToMap_script_def Let_def split: option.splits)

lemma addLocationToMap_script_makes_rectangle:
  assumes "north c = Some n" "south c = Some s" "east c = Some e" "west c = Some w"
  shows "hasRectangle (rectangle s w n e) m (addLocationToMap_script c m l st)"
  using assms by (auto simp: hasRectangle_def addLocationToMap_script_def Let_def)

lemma locationKey_Nil: "locationKey [] = []"
  by (simp add: locationKey_def trim_def toLowerCase_def)

lemma placeLocation_hit:
  assumes "locationKey l \<noteq> []" "cache (locationKey l) = Some (Some c)"
  shows "placeLocation add cache m (JStr l) st = add c m l st"
  using assms locationKey_Nil by (auto simp: placeLocation_def)

lemma ingest_reaches_location:
  assumes keep: "\<And>c' m' l' st. P st \<Longrightarrow> P (add c' m' l' st)"
    and make: "\<And>st. P (add c m l st)"
    and m: "m \<in> set msgs" and l: "JStr l \<in> set (locations m)"
    and key: "locationKey l \<noteq> []" and hit: "cache (locationKey l) = Some (Some c)"
  shows "P (fold (\<lambda>m st. fold (placeLocation add cache m) (locations m) st) msgs st0)"
proof -
  from m obtain pre post where msgs: "msgs = pre @ m # post"
    by (auto dest: split_list)
  from l obtain lpre lpost where ls: "locations m = lpre @ JStr l # lpost"
    by (auto dest: split_list)
  let ?step = "\<lambda>m st. fold (placeLocation add cache m) (locations m) st"
  let ?st1 = "fold ?step pre st0"
  let ?st2 = "fold (placeLocation add cache m) lpre ?st1"
  have "P (placeLocation add cache m (JStr l) ?st2)"
    using make key hit by (simp add: placeLocation_hit)
  then have "P (fold (placeLocation add cache m) lpost (placeLocation add cache m (JStr l) ?st2))"
    using keep by (rule fold_placeLocation_preserves [rotated])
  then have "P (?step m ?st1)"
    by (simp add: ls)
  then have "P (fold ?step post (?step m ?st1))"
    using keep by (rule fold_messages_preserves [rotated])
  then show ?thesis
    by (simp add: msgs)
qed

lemma ingest_same_bounds:
  assumes "north c = Some n" "south c = Some s" "east c = Some e" "west c = Some w"
  shows "regionStore (addLocationToMap c m2 l (addLocationToMap c m1 l resetState)) =
           [(0, \<lparr>name = l, bounds = \<lparr>bnorth = n, bsouth = s, beast = e, bwest = w\<rparr>,
                 messages = [m1, m2], center = (js_quot (js_add n s) 2, js_quot (js_add e w) 2)\<rparr>)]"
  using assms
  by (simp add: regionStore_addLocationToMap resetState_def sameRegion_def pushMessage_def)

lemma ingest_different_bounds:
  assumes "north c1 = Some n1" "south c1 = Some s1" "east c1 = Some e1" "west c1 = Some w1"
    "north c2 = Some n2" "south c2 = Some s2" "east c2 = Some e2" "west c2 = Some w2"
    "n1 \<noteq> n2 \<or> s1 \<noteq> s2 \<or> e1 \<noteq> e2 \<or> w1 \<noteq> w2"
  shows "regionStore (addLocationToMap c2 m2 l (addLocationToMap c1 m1 l resetState)) =
           [(0, \<lparr>name = l, bounds = \<lparr>bnorth = n1, bsouth = s1, beast = e1, bwest = w1\<rparr>,
                 messages = [m1], center = (js_quot (js_add n1 s1) 2, js_quot (js_add e1 w1) 2)\<rparr>),
            (1, \<lparr>name = l, bounds = \<lparr>bnorth = n2, bsouth = s2, beast = e2, bwest = w2\<rparr>,
                 messages = [m2], center = (js_quot (js_add n2 s2) 2, js_quot (js_add e2 w2) 2)\<rparr>)]"
proof -
  have st1: "regionStore (addLocationToMap c1 m1 l resetState) =
           [(0, \<lparr>name = l, bounds = \<lparr>bnorth = n1, bsouth = s1, beast = e1, bwest = w1\<rparr>,
                 messages = [m1], center = (js_quot (js_add n1 s1) 2, js_quot (js_add e1 w1) 2)\<rparr>)]"
    and nx: "nextRegionId (addLocationToMap c1 m1 l resetState) = 1"
    using assms(1-4) by (simp_all add: addLocationToMap_def resetState_def Let_def)
  show ?thesis
    using assms(5-9) by (auto simp: regionStore_addLocationToMap [of c2] st1 nx sameRegion_def)
qed


lemma refreshMarkers_same_location:
  assumes "locations m1 = [JStr l]" "locations m2 = [JStr l]" "locationKey l \<noteq> []"
    "cache (locationKey l) = Some (Some c)"
    "north c = Some n" "south c = Some s" "east c = Some e" "west c = Some w"
  shows "regionStore (refreshMarkers cache [m1, m2]) =
           [(0, \<lparr>name = l, bounds = \<lparr>bnorth = n, bsouth = s, beast = e, bwest = w\<rparr>,
                 messages = [m1, m2], center = (js_quot (js_add n s) 2, js_quot (js_add e w) 2)\<rparr>)]"
  using assms(1-4) ingest_same_bounds [OF assms(5-8)]
  by (simp add: refreshMarkers_def placeLocation_hit)

text \<open>
  Claim C7. From the reset state, two ingests with the same location name and the same
  four bounds leave exactly one region entity, listing both messages in order; two ingests
  with the same name whose bounds differ in any of the four values leave two entities of
  one message each. The comparison is \<open>=\<close> on the four numbers, without tolerance. The
  first case is also what a rebuild over two messages naming the same location gives.
\<close>

theorem ingest_dedup_by_name_and_bounds:
  "(north c = Some n \<and> south c = Some s \<and> east c = Some e \<and> west c = Some w \<longrightarrow>
      regionStore (addLocationToMap c m2 l (addLocationToMap c m1 l resetState)) =
        [(0, \<lparr>name = l, bounds = \<lparr>bnorth = n, bsouth = s, beast = e, bwest = w\<rparr>,
              messages = [m1, m2], center = (js_quot (js_add n s) 2, js_quot (js_add e w) 2)\<rparr>)])
   \<and> (north c1 = Some n1 \<and> south c1 = Some s1 \<and> east c1 = Some e1 \<and> west c1 = Some w1 \<and>
      north c2 = Some n2 \<and> south c2 = Some s2 \<and> east c2 = Some e2 \<and> west c2 = Some w2 \<and>
      (n1 \<noteq> n2 \<or> s1 \<noteq> s2 \<or> e1 \<noteq> e2 \<or> w1 \<noteq> w2) \<longrightarrow>
      regionStore (addLocationToMap c2 m2 l (addLocationToMap c1 m1 l resetState)) =
        [(0, \<lparr>name = l, bounds = \<lparr>bnorth = n1, bsouth = s1, beast = e1, bwest = w1\<rparr>,
              messages = [m1], center = (js_quot (js_add n1 s1) 2, js_quot (js_add e1 w1) 2)\<rparr>),
         (1, \<lparr>name = l, bounds = \<lparr>bnorth = n2, bsouth = s2, beast = e2, bwest = w2\<rparr>,
              messages = [m2], center = (js_quot (js_add n2 s2) 2, js_quot (js_add e2 w2) 2)\<rparr>)])
   \<and> (locations m1 = [JStr l] \<and> locations m2 = [JStr l] \<and> locationKey l \<noteq> [] \<and>
      cache (locationKey l) = Some (Some c) \<and>
      north c = Some n \<and> south c = Some s \<and> east c = Some e \<and> west c = Some w \<longrightarrow>
      regionStore (refreshMarkers cache [m1, m2]) =
        [(0, \<lparr>name = l, bounds = \<lparr>bnorth = n, bsouth = s, beast = e, bwest = w\<rparr>,
              messages = [m1, m2], center = (js_quot (js_add n s) 2, js_quot (js_add e w) 2)\<rparr>)])"
  using ingest_same_bounds [of c n s e w m2 l m1]
    ingest_different_bounds [of c1 n1 s1 e1 w1 c2 n2 s2 e2 w2 m2 l m1]
    refreshMarkers_same_location [of m1 l m2 cache c n s e w]
  by blast

theorem ingest_dedup_by_name_and_bounds_witness:
  "length (regionStore
     (addLocationToMap (boxCoord gazaStrip) (newsMsg ''b'' ''2024-01-02'' [JStr ''Gaza''])
        ''Gaza''
        (addLocationToMap (boxCoord gazaStrip) (newsMsg ''a'' ''2024-01-01'' [JStr ''Gaza''])
           ''Gaza'' resetState))) = 1
   \<and> map (length \<circ> messages \<circ> snd) (regionStore
     (addLocationToMap (boxCoord gazaStrip) (newsMsg ''b'' ''2024-01-02'' [JStr ''Gaza''])
        ''Gaza''
        (addLocationToMap (boxCoord gazaStrip) (newsMsg ''a'' ''2024-01-01'' [JStr ''Gaza''])
           ''Gaza'' resetState))) = [2]
   \<and> length (regionStore
     (addLocationToMap (boxCoord (gazaStrip\<lparr>bnorth := 32.000001\<rparr>))
        (newsMsg ''b'' ''2024-01-02'' [JStr ''Gaza'']) ''Gaza''
        (addLocationToMap (boxCoord gazaStrip) (newsMsg ''a'' ''2024-01-01'' [JStr ''Gaza''])
           ''Gaza'' resetState))) = 2
   \<and> length (regionStore (refreshMarkers (initCache [(''Gaza'', Some (boxCoord gazaStrip))])
       [newsMsg ''a'' ''2024-01-01'' [JStr ''Gaza''],
        newsMsg ''b'' ''2024-01-02'' [JStr ''Gaza'']])) = 1"
proof -
  let ?c = "boxCoord gazaStrip"
  let ?c2 = "boxCoord (gazaStrip\<lparr>bnorth := 32.000001\<rparr>)"
  let ?m1 = "newsMsg ''a'' ''2024-01-01'' [JStr ''Gaza'']"
  let ?m2 = "newsMsg ''b'' ''2024-01-02'' [JStr ''Gaza'']"
  let ?cache = "initCache [(''Gaza'', Some (boxCoord gazaStrip))]"
  have c: "north ?c = Some 32 \<and> south ?c = Some 31 \<and> east ?c = Some 35 \<and> west ?c = Some 34"
    by (simp add: boxCoord_def gazaStrip_def)
  have c2: "north ?c2 = Some 32.000001 \<and> south ?c2 = Some 31 \<and> east ?c2 = Some 35
              \<and> west ?c2 = Some 34"
    by (simp add: boxCoord_def gazaStrip_def)
  have d: "(32::real) \<noteq> 32.000001 \<or> (31::real) \<noteq> 31 \<or> (35::real) \<noteq> 35 \<or> (34::real) \<noteq> 34"
    by simp
  have ls: "locations ?m1 = [JStr ''Gaza''] \<and> locations ?m2 = [JStr ''Gaza'']"
    by (simp add: newsMsg_def)
  have key: "locationKey ''Gaza'' \<noteq> []"
    by code_simp
  have hit: "?cache (locationKey ''Gaza'') = Some (Some ?c)"
    by code_simp
  note inst = ingest_dedup_by_name_and_bounds
    [where c = ?c and n = 32 and s = 31 and e = 35 and w = 34 and ?m1.0 = ?m1 and ?m2.0 = ?m2
       and l = "''Gaza''" and ?c1.0 = ?c and ?n1.0 = 32 and ?s1.0 = 31 and ?e1.0 = 35
       and ?w1.0 = 34 and ?c2.0 = ?c2 and ?n2.0 = "32.000001" and ?s2.0 = 31 and ?e2.0 = 35
       and ?w2.0 = 34 and cache = ?cache]
  have a1: "regionStore (addLocationToMap ?c ?m2 ''Gaza'' (addLocationToMap ?c ?m1 ''Gaza'' resetState)) =
        [(0, \<lparr>name = ''Gaza'', bounds = \<lparr>bnorth = 32, bsouth = 31, beast = 35, bwest = 34\<rparr>,
              messages = [?m1, ?m2], center = (js_quot (js_add 32 31) 2, js_quot (js_add 35 34) 2)\<rparr>)]"
    using inst c by blast
  have a2: "regionStore (addLocationToMap ?c2 ?m2 ''Gaza'' (addLocationToMap ?c ?m1 ''Gaza'' resetState)) =
        [(0, \<lparr>name = ''Gaza'', bounds = \<lparr>bnorth = 32, bsouth = 31, beast = 35, bwest = 34\<rparr>,
              messages = [?m1], center = (js_quot (js_add 32 31) 2, js_quot (js_add 35 34) 2)\<rparr>),
         (1, \<lparr>name = ''Gaza'', bounds = \<lparr>bnorth = 32.000001, bsouth = 31, beast = 35, bwest = 34\<rparr>,
              messages = [?m2], center = (js_quot (js_add 32.000001 31) 2, js_quot (js_add 35 34) 2)\<rparr>)]"
    using inst c c2 d by blast
  have a3: "regionStore (refreshMarkers ?cache [?m1, ?m2]) =
        [(0, \<lparr>name = ''Gaza'', bounds = \<lparr>bnorth = 32, bsouth = 31, beast = 35, bwest = 34\<rparr>,
              messages = [?m1, ?m2], center = (js_quot (js_add 32 31) 2, js_quot (js_add 35 34) 2)\<rparr>)]"
    using inst c ls key hit by blast
  show ?thesis
    unfolding a1 a2 a3 by simp
qed

lemma fl_63: "fl (63) = 63"
  by (simp add: fl_eval [where j = 47] roundHalfEven_def)

lemma fl_63_half: "fl (63 / 2) = 63 / 2"
  by (simp add: fl_eval [where j = 48] roundHalfEven_def)

lemma fl_69: "fl (69) = 69"
  by (simp add: fl_eval [where j = 46] roundHalfEven_def)

lemma fl_69_half: "fl (69 / 2) = 69 / 2"
  by (simp add: fl_eval [where j = 47] roundHalfEven_def)

lemma fl_narrow_sum: "fl (17620333542087065 / 281474976710656) = 2202541692760883 / 35184372088832"
  by (simp add: fl_eval [where j = 47] roundHalfEven_def)

lemma fl_narrow_half: "fl (2202541692760883 / 70368744177664) = 2202541692760883 / 70368744177664"
  by (simp add: fl_eval [where j = 48] roundHalfEven_def)

lemmas fl_centers = fl_63 fl_63_half fl_69 fl_69_half fl_narrow_sum fl_narrow_half

lemma locationKey_Gaza: "locationKey ''Gaza'' = ''gaza''"
  by code_simp

lemma locationKey_gaza: "locationKey ''gaza'' = ''gaza''"
  by code_simp

lemma refreshMarkers_single:
  assumes "locations m = [JStr l]" "locationKey l \<noteq> []" "cache (locationKey l) = Some (Some c)"
  shows "refreshMarkers cache [m] = addLocationToMap c m l resetState"
    and "refreshMarkers_script cache [m] = addLocationToMap_script c m l resetState"
  using assms by (simp_all add: refreshMarkers_def refreshMarkers_script_def placeLocation_hit)

text \<open>
  Claim C3, as the code has it. Neither file compares north with south or east with west.
  Whenever a location of a message resolves to a cache entry that carries all four bounds,
  in any order, a rebuild of \<^verbatim>\<open>part_000\<close> leaves a region entity with that name and those
  bounds that lists the message, and a rebuild of \<^verbatim>\<open>script.js\<close> leaves a rectangle for the
  message that covers the same latitudes and longitudes, its corners put in order.
\<close>

theorem four_bounds_always_ingested:
  assumes "m \<in> set msgs" "JStr l \<in> set (locations m)" "locationKey l \<noteq> []"
    "cache (locationKey l) = Some (Some c)"
    "north c = Some n" "south c = Some s" "east c = Some e" "west c = Some w"
  shows "hasRegion l \<lparr>bnorth = n, bsouth = s, beast = e, bwest = w\<rparr> m (refreshMarkers cache msgs)
       \<and> hasRectangle \<lparr>bnorth = max s n, bsouth = min s n, beast = max w e, bwest = min w e\<rparr> m
           (refreshMarkers_script cache msgs)"
proof
  show "hasRegion l \<lparr>bnorth = n, bsouth = s, beast = e, bwest = w\<rparr> m (refreshMarkers cache msgs)"
    unfolding refreshMarkers_def
    using addLocationToMap_keeps_region addLocationToMap_makes_region [OF assms(5-8)] assms(1-4)
    by (rule ingest_reaches_location)
  have "hasRectangle (rectangle s w n e) m (refreshMarkers_script cache msgs)"
    unfolding refreshMarkers_script_def
    using addLocationToMap_script_keeps_rectangle
      addLocationToMap_script_makes_rectangle [OF assms(5-8)] assms(1-4)
    by (rule ingest_reaches_location)
  then show "hasRectangle \<lparr>bnorth = max s n, bsouth = min s n, beast = max w e, bwest = min w e\<rparr> m
          (refreshMarkers_script cache msgs)"
    by (simp add: rectangle_def)
qed

theorem four_bounds_always_ingested_witness:
  "\<not> validBounds invertedBox
   \<and> hasRegion ''Gaza'' invertedBox (newsMsg ''a'' ''2024-01-01'' [JStr ''Gaza''])
       (refreshMarkers (initCache [(''gaza'', Some (boxCoord invertedBox))])
          [newsMsg ''a'' ''2024-01-01'' [JStr ''Gaza'']])
   \<and> hasRectangle gazaStrip (newsMsg ''a'' ''2024-01-01'' [JStr ''Gaza''])
       (refreshMarkers_script (initCache [(''gaza'', Some (boxCoord invertedBox))])
          [newsMsg ''a'' ''2024-01-01'' [JStr ''Gaza'']])"
proof -
  let ?m = "newsMsg ''a'' ''2024-01-01'' [JStr ''Gaza'']"
  let ?cache = "initCache [(''gaza'', Some (boxCoord invertedBox))]"
  have inv: "\<not> validBounds invertedBox"
    by (simp add: validBounds_def invertedBox_def)
  have b: "\<lparr>bnorth = 31, bsouth = 32, beast = 34, bwest = 35\<rparr> = invertedBox"
    by (simp add: invertedBox_def)
  have g: "\<lparr>bnorth = max 32 31, bsouth = min 32 31, beast = max 35 34, bwest = min 35 34\<rparr>
             = gazaStrip"
    by (simp add: gazaStrip_def)
  have h1: "?m \<in> set [?m]" by simp
  have h2: "JStr ''Gaza'' \<in> set (locations ?m)" by (simp add: newsMsg_def)
  have h3: "locationKey ''Gaza'' \<noteq> []" by (simp add: locationKey_Gaza)
  have h4: "?cache (locationKey ''Gaza'') = Some (Some (boxCoord invertedBox))"
    by (simp add: locationKey_Gaza locationKey_gaza initCache_def getProperty_def setProperty_def)
  have h5: "north (boxCoord invertedBox) = Some 31" "south (boxCoord invertedBox) = Some 32"
    "east (boxCoord invertedBox) = Some 34" "west (boxCoord invertedBox) = Some 35"
    by (simp_all add: boxCoord_def invertedBox_def)
  from four_bounds_always_ingested
         [of ?m "[?m]" "''Gaza''" ?cache "boxCoord invertedBox" 31 32 34 35]
       h1 h2 h3 h4 h5 inv
  show ?thesis unfolding b g by simp
qed

text \<open>
  A cache entry with north below south and east below west is ingested like any other:
  the rebuild of \<^verbatim>\<open>part_000\<close> constructs a region entity for it, with the message in its
  list, and the rebuild of \<^verbatim>\<open>script.js\<close> stores the message and draws its rectangle.
\<close>

theorem inverted_bounds_counterexample:
  "\<not> validBounds invertedBox
   \<and> regionStore (refreshMarkers (initCache [(''gaza'', Some (boxCoord invertedBox))])
        [newsMsg ''a'' ''2024-01-01'' [JStr ''Gaza'']])
     = [(0, \<lparr>name = ''Gaza'', bounds = invertedBox,
             messages = [newsMsg ''a'' ''2024-01-01'' [JStr ''Gaza'']],
             center = (31.5, 34.5)\<rparr>)]
   \<and> rectangleLayerGroup (refreshMarkers_script
        (initCache_script [(''gaza'', Some (boxCoord invertedBox))])
        [newsMsg ''a'' ''2024-01-01'' [JStr ''Gaza'']])
     = [(0, gazaStrip)]
   \<and> messageStore (refreshMarkers_script
        (initCache_script [(''gaza'', Some (boxCoord invertedBox))])
        [newsMsg ''a'' ''2024-01-01'' [JStr ''Gaza'']])
     = [(0, newsMsg ''a'' ''2024-01-01'' [JStr ''Gaza''])]"
proof -
  let ?m = "newsMsg ''a'' ''2024-01-01'' [JStr ''Gaza'']"
  have inv: "\<not> validBounds invertedBox"
    by (simp add: validBounds_def invertedBox_def)
  have ls: "locations ?m = [JStr ''Gaza'']"
    by (simp add: newsMsg_def)
  have key: "locationKey ''Gaza'' \<noteq> []"
    by (simp add: locationKey_Gaza)
  have hit: "initCache [(''gaza'', Some (boxCoord invertedBox))] (locationKey ''Gaza'')
               = Some (Some (boxCoord invertedBox))"
    by (simp add: locationKey_Gaza locationKey_gaza initCache_def getProperty_def setProperty_def)
  have hit': "initCache_script [(''gaza'', Some (boxCoord invertedBox))] (locationKey ''Gaza'')
               = Some (Some (boxCoord invertedBox))"
    by (simp add: locationKey_Gaza initCache_script_def getProperty_def)
  have r1: "regionStore (refreshMarkers (initCache [(''gaza'', Some (boxCoord invertedBox))]) [?m])
     = [(0, \<lparr>name = ''Gaza'', bounds = invertedBox, messages = [?m], center = (31.5, 34.5)\<rparr>)]"
    unfolding refreshMarkers_single(1)
        [of ?m "''Gaza''" "initCache [(''gaza'', Some (boxCoord invertedBox))]"
           "boxCoord invertedBox", OF ls key hit]
    by (simp add: regionStore_addLocationToMap boxCoord_def invertedBox_def resetState_def
        js_quot_def js_add_def fl_centers)
  have r2: "rectangleLayerGroup (refreshMarkers_script
        (initCache_script [(''gaza'', Some (boxCoord invertedBox))]) [?m]) = [(0, gazaStrip)]"
    unfolding refreshMarkers_single(2)
        [of ?m "''Gaza''" "initCache_script [(''gaza'', Some (boxCoord invertedBox))]"
           "boxCoord invertedBox", OF ls key hit']
    by (simp add: addLocationToMap_script_def boxCoord_def invertedBox_def resetState_def
        rectangle_def gazaStrip_def)
  have r3: "messageStore (refreshMarkers_script
        (initCache_script [(''gaza'', Some (boxCoord invertedBox))]) [?m]) = [(0, ?m)]"
    unfolding refreshMarkers_single(2)
        [of ?m "''Gaza''" "initCache_script [(''gaza'', Some (boxCoord invertedBox))]"
           "boxCoord invertedBox", OF ls key hit']
    by (simp add: addLocationToMap_script_def boxCoord_def invertedBox_def resetState_def)
  from inv r1 r2 r3 show ?thesis
    by blast
qed

text \<open>
  Claim C10, as the code has it. After a rebuild, every region entity of the store has as
  its center the doubles \<^verbatim>\<open>(north + south) / 2\<close> and \<^verbatim>\<open>(east + west) / 2\<close> of its bounds:
  the sum rounded to a double, then halved and rounded again.
\<close>

theorem region_center_is_double_midpoint:
  "\<forall>e \<in> set (regionStore (refreshMarkers cache msgs)). centerIsDoubleMidpoint (snd e)"
  unfolding refreshMarkers_def
  by (rule fold_messages_preserves
        [where P = "\<lambda>st. \<forall>e \<in> set (regionStore st). centerIsDoubleMidpoint (snd e)"])
     (simp_all add: addLocationToMap_center resetState_def)

theorem region_center_is_double_midpoint_witness:
  "(0, \<lparr>name = ''Gaza'', bounds = gazaStrip,
        messages = [newsMsg ''a'' ''2024-01-01'' [JStr ''Gaza'']],
        center = (31.5, 34.5)\<rparr>)
     \<in> set (regionStore (refreshMarkers (initCache [(''gaza'', Some (boxCoord gazaStrip))])
          [newsMsg ''a'' ''2024-01-01'' [JStr ''Gaza'']]))
   \<and> centerIsDoubleMidpoint \<lparr>name = ''Gaza'', bounds = gazaStrip,
        messages = [newsMsg ''a'' ''2024-01-01'' [JStr ''Gaza'']],
        center = (31.5, 34.5)\<rparr>"
proof -
  let ?m = "newsMsg ''a'' ''2024-01-01'' [JStr ''Gaza'']"
  let ?r = "\<lparr>name = ''Gaza'', bounds = gazaStrip, messages = [?m], center = (31.5, 34.5)\<rparr>"
  let ?cache = "initCache [(''gaza'', Some (boxCoord gazaStrip))]"
  have ls: "locations ?m = [JStr ''Gaza'']"
    by (simp add: newsMsg_def)
  have key: "locationKey ''Gaza'' \<noteq> []"
    by (simp add: locationKey_Gaza)
  have hit: "?cache (locationKey ''Gaza'') = Some (Some (boxCoord gazaStrip))"
    by (simp add: locationKey_Gaza locationKey_gaza initCache_def getProperty_def setProperty_def)
  have "regionStore (refreshMarkers ?cache [?m]) = [(0, ?r)]"
    unfolding refreshMarkers_single(1) [of ?m "''Gaza''" ?cache "boxCoord gazaStrip", OF ls key hit]
    by (simp add: regionStore_addLocationToMap boxCoord_def gazaStrip_def resetState_def
        js_quot_def js_add_def fl_centers)
  then have mem: "(0, ?r) \<in> set (regionStore (refreshMarkers ?cache [?m]))"
    by simp
  with region_center_is_double_midpoint [of ?cache "[?m]"]
  have "centerIsDoubleMidpoint (snd (0::nat, ?r))"
    by blast
  with mem show ?thesis
    by simp
qed

text \<open>
  A region whose north and south are the doubles nearest to 31.4 and 31.2: the stored
  center latitude is the double 31.299999999999997, below the exact midpoint of the two
  bounds, because the sum of the two doubles is rounded.
\<close>

theorem region_center_counterexample:
  "regionStore (refreshMarkers (initCache [(''gaza'', Some (boxCoord narrowBox))])
        [newsMsg ''a'' ''2024-01-01'' [JStr ''Gaza'']])
     = [(0, \<lparr>name = ''Gaza'', bounds = narrowBox,
             messages = [newsMsg ''a'' ''2024-01-01'' [JStr ''Gaza'']],
             center = (2202541692760883 / 70368744177664, 34.5)\<rparr>)]
   \<and> \<not> centerIsMidpoint \<lparr>name = ''Gaza'', bounds = narrowBox,
             messages = [newsMsg ''a'' ''2024-01-01'' [JStr ''Gaza'']],
             center = (2202541692760883 / 70368744177664, 34.5)\<rparr>
   \<and> (bnorth narrowBox + bsouth narrowBox) / 2 = 17620333542087065 / 562949953421312"
proof -
  let ?m = "newsMsg ''a'' ''2024-01-01'' [JStr ''Gaza'']"
  let ?cache = "initCache [(''gaza'', Some (boxCoord narrowBox))]"
  have ls: "locations ?m = [JStr ''Gaza'']"
    by (simp add: newsMsg_def)
  have key: "locationKey ''Gaza'' \<noteq> []"
    by (simp add: locationKey_Gaza)
  have hit: "?cache (locationKey ''Gaza'') = Some (Some (boxCoord narrowBox))"
    by (simp add: locationKey_Gaza locationKey_gaza initCache_def getProperty_def setProperty_def)
  have r1: "regionStore (refreshMarkers ?cache [?m])
     = [(0, \<lparr>name = ''Gaza'', bounds = narrowBox, messages = [?m],
             center = (2202541692760883 / 70368744177664, 34.5)\<rparr>)]"
    unfolding refreshMarkers_single(1) [of ?m "''Gaza''" ?cache "boxCoord narrowBox", OF ls key hit]
    by (simp add: regionStore_addLocationToMap boxCoord_def narrowBox_def resetState_def
        js_quot_def js_add_def fl_centers)
  have r2: "\<not> centerIsMidpoint \<lparr>name = ''Gaza'', bounds = narrowBox, messages = [?m],
             center = (2202541692760883 / 70368744177664, 34.5)\<rparr>"
    by (simp add: centerIsMidpoint_def narrowBox_def)
  have r3: "(bnorth narrowBox + bsouth narrowBox) / 2 = 17620333542087065 / 562949953421312"
    by (simp add: narrowBox_def)
  from r1 r2 r3 show ?thesis
    by blast
qed

section \<open>Cache lookup\<close>

lemma fold_rekey_hit_iff:
  "(fold (\<lambda>(key, v) cache. cache(f key \<mapsto> v)) raw c0 k \<noteq> None) =
     (c0 k \<noteq> None \<or> (\<exists>kv \<in> set raw. f (fst kv) = k))"
  by (induction raw arbitrary: c0) (auto split: prod.splits)

lemma getProperty_hit_iff:
  "(getProperty \<lparr>own = props, proto = ObjectPrototype\<rparr> k \<noteq> None) =
     (props k \<noteq> None \<or> k = ''constructor'' \<or> k = ''__proto__'')"
  by (simp add: getProperty_def fromObjectPrototype_def split: option.splits)

lemma fold_setProperty_plain:
  assumes "\<forall>kv \<in> set raw. f (fst kv) \<noteq> ''__proto__''"
  shows "fold (\<lambda>(key, v). setProperty (f key) v) raw obj =
           obj\<lparr>own := fold (\<lambda>(key, v) props. props(f key \<mapsto> v)) raw (own obj)\<rparr>"
  using assms
  by (induction raw arbitrary: obj) (auto simp: setProperty_def split: prod.splits)

lemma initCache_plain:
  assumes "\<forall>kv \<in> set raw. locationKey (fst kv) \<noteq> ''__proto__''"
  shows "initCache raw =
           getProperty \<lparr>own = fold (\<lambda>(key, v) props. props(locationKey key \<mapsto> v)) raw Map.empty,
                        proto = ObjectPrototype\<rparr>"
  by (simp add: initCache_def fold_setProperty_plain [OF assms])

text \<open>
  A lookup hits when an entry has the key, and also when the key names a member of
  \<^verbatim>\<open>Object.prototype\<close>.
\<close>

lemma initCache_hit_iff:
  assumes "\<forall>kv \<in> set raw. locationKey (fst kv) \<noteq> ''__proto__''"
  shows "(lookupLocation (initCache raw) location \<noteq> None) =
     ((\<exists>kv \<in> set raw. locationKey (fst kv) = locationKey location)
      \<or> locationKey location = ''constructor'' \<or> locationKey location = ''__proto__'')"
  unfolding lookupLocation_def initCache_plain [OF assms] getProperty_hit_iff
  using fold_rekey_hit_iff [of locationKey raw Map.empty "locationKey location"]
  by simp

lemma initCache_script_hit_iff:
  "(lookupLocation (initCache_script raw) location \<noteq> None) =
     ((\<exists>kv \<in> set raw. fst kv = locationKey location)
      \<or> locationKey location = ''constructor'' \<or> locationKey location = ''__proto__'')"
  unfolding lookupLocation_def initCache_script_def getProperty_hit_iff
  using fold_rekey_hit_iff [of "\<lambda>k. k" raw Map.empty "locationKey location"]
  by simp

lemma fold_rekey_other:
  "k \<notin> f ` fst ` set raw \<Longrightarrow>
     fold (\<lambda>(key, v) cache. cache(f key \<mapsto> v)) raw c0 k = c0 k"
  by (induction raw arbitrary: c0) (auto split: prod.splits)

lemma fold_rekey_value:
  assumes "distinct (map (f \<circ> fst) raw)" "(k, v) \<in> set raw"
  shows "fold (\<lambda>(key, v) cache. cache(f key \<mapsto> v)) raw c0 (f k) = Some v"
  using assms
proof (induction raw arbitrary: c0)
  case Nil
  then show ?case by simp
next
  case (Cons a raw)
  show ?case
  proof (cases "a = (k, v)")
    case True
    then have "f k \<notin> f ` fst ` set raw"
      using Cons.prems(1) by (auto simp: image_image)
    then have "fold (\<lambda>(key, v) cache. cache(f key \<mapsto> v)) raw (c0(f k \<mapsto> v)) (f k)
                 = (c0(f k \<mapsto> v)) (f k)"
      by (rule fold_rekey_other)
    then show ?thesis
      unfolding True by (simp del: fun_upd_apply) simp
  next
    case False
    then show ?thesis
      using Cons by (auto split: prod.splits)
  qed
qed

lemma initCache_finds_entry:
  assumes "distinct (map (locationKey \<circ> fst) raw)" "(k, v) \<in> set raw"
    "locationKey location = locationKey k"
    "\<forall>kv \<in> set raw. locationKey (fst kv) \<noteq> ''__proto__''"
  shows "lookupLocation (initCache raw) location = Some v"
  using fold_rekey_value [OF assms(1,2), of Map.empty] assms(3)
  by (simp add: lookupLocation_def initCache_plain [OF assms(4)] getProperty_def)

section \<open>Malformed location entries\<close>

lemma placeLocation_skips_malformed:
  assumes "(\<forall>l. location \<noteq> JStr l) \<or> (\<exists>l. location = JStr l \<and> locationKey l = [])"
  shows "placeLocation add cache m location st = st"
  using assms by (auto simp: placeLocation_def split: json.splits)

lemma scanLocations_strings:
  assumes "list_all isString ls"
  shows "\<exists>acc'. scanLocations cache rb m ls inc acc = Inr acc'"
  using assms
proof (induction ls arbitrary: inc acc)
  case Nil
  then show ?case by simp
next
  case (Cons a ls)
  then obtain l where a: "a = JStr l"
    by (cases a) (auto simp: isString_def)
  from Cons have IH: "\<And>inc acc. \<exists>acc'. scanLocations cache rb m ls inc acc = Inr acc'"
    by simp
  show ?case
    unfolding a using IH by (simp split: option.splits)
qed

lemma scanMessages_strings:
  assumes "list_all (\<lambda>m. list_all isString (locations m)) msgs"
  shows "\<exists>acc'. scanMessages cache rb msgs acc = Inr acc'"
  using assms
proof (induction msgs arbitrary: acc)
  case Nil
  then show ?case by simp
next
  case (Cons m msgs)
  then obtain acc1 where "scanLocations cache rb m (locations m) False acc = Inr acc1"
    using scanLocations_strings [of "locations m" cache rb m False acc] by auto
  then show ?case using Cons by simp
qed

lemma findMessagesInRegion_strings:
  assumes "list_all (\<lambda>m. list_all isString (locations m)) msgs"
  shows "\<exists>res. findMessagesInRegion dv cache msgs rb = Inr res"
  using scanMessages_strings [OF assms, of cache rb "([], {})"]
  by (auto simp: findMessagesInRegion_def)

lemma scanLocations_throws:
  assumes "\<not> isString a"
  shows "scanLocations cache rb m (a # ls) False acc = Inl TypeError"
  using assms by (cases a) (simp_all add: isString_def)


section \<open>The spatial query on lists of strings\<close>

lemma locationMatches_JStr:
  "locationMatches cache rb (JStr l) =
     (case cache (locationKey l) of Some (Some c) \<Rightarrow> isLocationInBounds c rb | _ \<Rightarrow> False)"
  by (simp add: locationMatches_def)

lemma scanLocations_strings_eq:
  assumes "list_all isString ls"
  shows "scanLocations cache rb m ls inc (res, added) =
           Inr (if \<not> inc \<and> list_ex (locationMatches cache rb) ls \<and> messageId m \<notin> added
                then (res @ [m], insert (messageId m) added) else (res, added))"
  using assms
proof (induction ls arbitrary: inc res added)
  case Nil
  then show ?case by simp
next
  case (Cons a ls)
  then obtain l where a: "a = JStr l"
    by (cases a) (auto simp: isString_def)
  from Cons have IH: "\<And>inc res added. scanLocations cache rb m ls inc (res, added) =
           Inr (if \<not> inc \<and> list_ex (locationMatches cache rb) ls \<and> messageId m \<notin> added
                then (res @ [m], insert (messageId m) added) else (res, added))"
    by simp
  show ?case
    unfolding a by (simp add: IH locationMatches_JStr split: option.splits)
qed

lemma scanLocations_message:
  assumes "list_all isString (locations m)"
  shows "scanLocations cache rb m (locations m) False (res, added) =
           Inr (if anyLocationMatches cache rb m \<and> messageId m \<notin> added
                then (res @ [m], insert (messageId m) added) else (res, added))"
  by (simp add: scanLocations_strings_eq [OF assms] anyLocationMatches_def)

lemma scanMessages_strings_eq:
  assumes "list_all (\<lambda>m. list_all isString (locations m)) msgs"
  shows "\<exists>added'. scanMessages cache rb msgs (res, added) =
           Inr (res @ firstByKey messageId added (filter (anyLocationMatches cache rb) msgs), added')"
  using assms
proof (induction msgs arbitrary: res added)
  case Nil
  then show ?case by simp
next
  case (Cons m msgs)
  then have s: "list_all isString (locations m)"
    and IH: "\<And>res added. \<exists>added'. scanMessages cache rb msgs (res, added) =
           Inr (res @ firstByKey messageId added (filter (anyLocationMatches cache rb) msgs), added')"
    by simp_all
  show ?case
    using IH [of "res @ [m]" "insert (messageId m) added"] IH [of res added]
    by (auto simp: scanLocations_message [OF s])
qed

lemma firstByKey_subset: "set (firstByKey key seen xs) \<subseteq> set xs"
  by (induction xs arbitrary: seen) auto

lemma firstByKey_keys:
  "key ` set (firstByKey key seen xs) = key ` set xs - seen"
  by (induction xs arbitrary: seen) auto

lemma firstByKey_distinct: "distinct (map key (firstByKey key seen xs))"
proof (induction xs arbitrary: seen)
  case Nil
  then show ?case by simp
next
  case (Cons x xs)
  have "key x \<notin> key ` set (firstByKey key (insert (key x) seen) xs)"
    by (simp add: firstByKey_keys)
  then show ?case using Cons by auto
qed

lemma findMessagesInRegion_strings_eq:
  assumes "list_all (\<lambda>m. list_all isString (locations m)) msgs"
    and "list_all (\<lambda>m. dv (date m) \<noteq> None) msgs"
  shows "findMessagesInRegion dv cache msgs rb =
           Inr (Sorted (sort_key (\<lambda>m. - timeOf dv m)
                  (firstByKey messageId {} (filter (anyLocationMatches cache rb) msgs))))"
proof -
  let ?pre = "firstByKey messageId {} (filter (anyLocationMatches cache rb) msgs)"
  have "set ?pre \<subseteq> set msgs"
    using firstByKey_subset [of messageId "{}" "filter (anyLocationMatches cache rb) msgs"]
    by auto
  then have "list_all (\<lambda>m. dv (date m) \<noteq> None) ?pre"
    using assms(2) unfolding list_all_iff by blast
  moreover obtain added' where "scanMessages cache rb msgs ([], {}) = Inr (?pre, added')"
    using scanMessages_strings_eq [OF assms(1), of cache rb "[]" "{}"] by auto
  ultimately show ?thesis
    by (simp add: findMessagesInRegion_def)
qed

lemma findMessagesInRegion_result:
  assumes strings: "list_all (\<lambda>m. list_all isString (locations m)) msgs"
    and dates: "list_all (\<lambda>m. dv (date m) \<noteq> None) msgs"
    and res: "findMessagesInRegion dv cache msgs rb = Inr (Sorted result)"
  shows "set result \<subseteq> {m \<in> set msgs. anyLocationMatches cache rb m}"
    and "messageId ` set result = messageId ` {m \<in> set msgs. anyLocationMatches cache rb m}"
    and "distinct (map messageId result)"
    and "sorted (map (\<lambda>m. - timeOf dv m) result)"
    and "\<And>t. filter (\<lambda>m. timeOf dv m = t) result =
           filter (\<lambda>m. timeOf dv m = t)
             (firstByKey messageId {} (filter (anyLocationMatches cache rb) msgs))"
proof -
  let ?pre = "firstByKey messageId {} (filter (anyLocationMatches cache rb) msgs)"
  have r: "result = sort_key (\<lambda>m. - timeOf dv m) ?pre"
    using findMessagesInRegion_strings_eq [OF strings dates, of cache rb] res by simp
  show "set result \<subseteq> {m \<in> set msgs. anyLocationMatches cache rb m}"
    using firstByKey_subset [of messageId "{}" "filter (anyLocationMatches cache rb) msgs"]
    by (auto simp: r)
  show "messageId ` set result = messageId ` {m \<in> set msgs. anyLocationMatches cache rb m}"
    using firstByKey_keys [of messageId "{}" "filter (anyLocationMatches cache rb) msgs"]
    by (simp add: r)
  have "distinct (map messageId ?pre)"
    by (rule firstByKey_distinct)
  then show "distinct (map messageId result)"
    by (simp add: r distinct_map)
  show "sorted (map (\<lambda>m. - timeOf dv m) result)"
    by (simp add: r)
  show "filter (\<lambda>m. timeOf dv m = t) result = filter (\<lambda>m. timeOf dv m = t) ?pre" for t
    using sort_key_stable [of "\<lambda>m. - timeOf dv m" "- t" ?pre] by (simp add: r)
qed

section \<open>Where the code departs from the specification\<close>

text \<open>
  Claim C1, on \<^verbatim>\<open>script.js\<close>. The cache is used with the keys of the JSON file, while
  every lookup lower-cases and trims the name: with the cache key \<open>Gaza\<close>, the lookup of
  the location \<open>Gaza\<close> asks for \<open>gaza\<close> and misses, and the rebuild places no marker.
  \<^verbatim>\<open>part_000\<close> re-keys the cache (\<open>initCache_hit_iff\<close>) and finds the entry.
\<close>

theorem script_lookup_misses_capitalised_key:
  "lookupLocation (initCache_script rawCache) ''Gaza'' = None
   \<and> markerClusterGroup (refreshMarkers_script (initCache_script rawCache)
        [newsMsg ''a'' ''2024-01-01'' [JStr ''Gaza'']]) = []
   \<and> lookupLocation (initCache rawCache) ''Gaza'' = Some (Some (pointCoord 31.5 34.47))
   \<and> markerClusterGroup (refreshMarkers (initCache rawCache)
        [newsMsg ''a'' ''2024-01-01'' [JStr ''Gaza'']]) = [(31.5, 34.47, 0)]"
  by code_simp

text \<open>
  Claim C2, on \<^verbatim>\<open>findMessagesInRegion\<close>. A message list whose first message has a
  \<^verbatim>\<open>null\<close> location entry: the rebuild skips the entry and places both messages
  (\<open>placeLocation_skips_malformed\<close>), while the spatial query throws a \<^verbatim>\<open>TypeError\<close> at
  \<^verbatim>\<open>location.trim()\<close> and returns nothing.
\<close>

theorem findMessagesInRegion_throws_on_null_location:
  "markerClusterGroup (refreshMarkers (initCache rawCache)
      [newsMsg ''a'' ''2024-01-01'' [JNull, JStr ''Gaza''],
       newsMsg ''b'' ''2024-01-02'' [JStr ''  '', JStr ''Gaza'']])
     = [(31.5, 34.47, 0), (31.5, 34.47, 1)]
   \<and> findMessagesInRegion exampleDateValue (initCache rawCache)
      [newsMsg ''a'' ''2024-01-01'' [JNull, JStr ''Gaza''],
       newsMsg ''b'' ''2024-01-02'' [JStr ''  '', JStr ''Gaza'']] gazaStrip
     = Inl TypeError
   \<and> findMessagesInRegion exampleDateValue (initCache rawCache)
      [newsMsg ''a'' ''2024-01-01'' [JStr ''Gaza''],
       newsMsg ''b'' ''2024-01-02'' [JStr ''  '', JStr ''Gaza'']] gazaStrip
     = Inr (Sorted [newsMsg ''b'' ''2024-01-02'' [JStr ''  '', JStr ''Gaza''],
                    newsMsg ''a'' ''2024-01-01'' [JStr ''Gaza'']])"
  by code_simp

text \<open>
  Claim C4, on the deduplication key. On lists of strings with dates that parse the query
  returns the matching messages, the first of each key, latest date first and otherwise in
  their original order (\<open>findMessagesInRegion_result\<close>). The key of a message without id is not its triple but
  the string \<^verbatim>\<open>`${msg.text}_${msg.date}_${msg.channel}`\<close>: \<open>alertA\<close> and \<open>alertB\<close> carry no
  id and differ in text and channel, but have the same key. Each has a location inside the
  queried bounds and is returned when queried alone; queried together, the second is
  dropped as a duplicate of the first. And when any message that is reached has an entry
  that is not a string, the query throws and the matching messages are not returned.
\<close>

theorem findMessagesInRegion_drops_colliding_key:
  "(msg_text alertA, date alertA, channel alertA) \<noteq> (msg_text alertB, date alertB, channel alertB)
   \<and> msg_id alertA = None \<and> msg_id alertB = None
   \<and> messageId alertA = messageId alertB
   \<and> findMessagesInRegion exampleDateValue (initCache rawCache) [alertA] gazaStrip
       = Inr (Sorted [alertA])
   \<and> findMessagesInRegion exampleDateValue (initCache rawCache) [alertB] gazaStrip
       = Inr (Sorted [alertB])
   \<and> findMessagesInRegion exampleDateValue (initCache rawCache) [alertA, alertB] gazaStrip
       = Inr (Sorted [alertA])
   \<and> findMessagesInRegion exampleDateValue (initCache rawCache)
         [alertA, newsMsg ''c'' ''2024-01-02'' [JNull]] gazaStrip
       = Inl TypeError"
  by code_simp

section \<open>The table computes the edit distance\<close>

lemma editDistance_Nil2 [simp]: "editDistance xs [] = length xs"
  by (cases xs) simp_all

lemma editDistance_snoc_Nil1:
  "editDistance [a] (ys @ [b]) =
     min (min (editDistance [] (ys @ [b]) + 1) (editDistance [a] ys + 1))
         (editDistance [] ys + (if a = b then 0 else 1))"
  by (induction ys) (auto simp: min_def)

lemma editDistance_snoc_Nil2:
  "editDistance (xs @ [a]) [b] =
     min (min (editDistance xs [b] + 1) (editDistance (xs @ [a]) [] + 1))
         (editDistance xs [] + (if a = b then 0 else 1))"
  by (induction xs) (auto simp: min_def)

lemma min3_exchange:
  fixes A B C D E F G H I c d :: nat
  shows "min (min (min (min (A + 1) (B + 1)) (C + c) + 1) (min (min (D + 1) (E + 1)) (F + c) + 1))
             (min (min (G + 1) (H + 1)) (I + c) + d)
       = min (min (min (min (A + 1) (D + 1)) (G + d) + 1) (min (min (B + 1) (E + 1)) (H + d) + 1))
             (min (min (C + 1) (F + 1)) (I + d) + c)"
  by (simp only: min_add_distrib_left min_add_distrib_right add.assoc add.commute add.left_commute
        min.assoc min.commute min.left_commute)

lemma editDistance_snoc:
  "editDistance (xs @ [a]) (ys @ [b]) =
     min (min (editDistance xs (ys @ [b]) + 1) (editDistance (xs @ [a]) ys + 1))
         (editDistance xs ys + (if a = b then 0 else 1))"
proof (induction xs ys rule: editDistance.induct)
  case (1 ys)
  show ?case using editDistance_snoc_Nil1 [of a ys b] by simp
next
  case (2 x xs)
  show ?case using editDistance_snoc_Nil2 [of "x # xs" a b] by simp
next
  case (3 x xs y ys)
  let ?c = "if a = b then 0 else (1::nat)"
  let ?d = "if x = y then 0 else (1::nat)"
  have e1: "editDistance (xs @ [a]) (y # ys @ [b]) =
     min (min (editDistance xs (y # ys @ [b]) + 1) (editDistance (xs @ [a]) (y # ys) + 1))
         (editDistance xs (y # ys) + ?c)"
    using "3.IH"(1) by simp
  have e2: "editDistance (x # xs @ [a]) (ys @ [b]) =
     min (min (editDistance (x # xs) (ys @ [b]) + 1) (editDistance (x # xs @ [a]) ys + 1))
         (editDistance (x # xs) ys + ?c)"
    using "3.IH"(2) by simp
  have e3: "editDistance (xs @ [a]) (ys @ [b]) =
     min (min (editDistance xs (ys @ [b]) + 1) (editDistance (xs @ [a]) ys + 1))
         (editDistance xs ys + ?c)"
    using "3.IH"(3) by simp
  have lhs: "editDistance ((x # xs) @ [a]) ((y # ys) @ [b]) =
     min (min (editDistance (xs @ [a]) (y # ys @ [b]) + 1) (editDistance (x # xs @ [a]) (ys @ [b]) + 1))
         (editDistance (xs @ [a]) (ys @ [b]) + ?d)"
    by simp
  have r1: "editDistance (x # xs) ((y # ys) @ [b]) =
     min (min (editDistance xs (y # ys @ [b]) + 1) (editDistance (x # xs) (ys @ [b]) + 1))
         (editDistance xs (ys @ [b]) + ?d)"
    by simp
  have r2: "editDistance ((x # xs) @ [a]) (y # ys) =
     min (min (editDistance (xs @ [a]) (y # ys) + 1) (editDistance (x # xs @ [a]) ys + 1))
         (editDistance (xs @ [a]) ys + ?d)"
    by simp
  have r3: "editDistance (x # xs) (y # ys) =
     min (min (editDistance xs (y # ys) + 1) (editDistance (x # xs) ys + 1))
         (editDistance xs ys + ?d)"
    by simp
  show ?case
    unfolding lhs r1 r2 r3 e1 e2 e3
    by (rule min3_exchange)
qed


lemma setCell_shape:
  assumes "wellShaped m n M"
  shows "wellShaped m n (setCell M j i v)"
proof (cases "j < length M")
  case True
  then show ?thesis
    using assms by (auto simp: wellShaped_def setCell_def nth_list_update)
next
  case False
  then have "setCell M j i v = M"
    by (simp add: setCell_def list_update_beyond)
  then show ?thesis
    using assms by simp
qed

lemma setCell_nth:
  assumes "wellShaped m n M" "j \<le> n" "i \<le> m" "j' \<le> n"
  shows "setCell M j i v ! j' ! i' = (if j' = j \<and> i' = i then v else M ! j' ! i')"
  using assms by (auto simp: wellShaped_def setCell_def nth_list_update)

lemma fold_upt_invariant:
  assumes "a \<le> b" "I a s"
    and step: "\<And>k s. a \<le> k \<Longrightarrow> k < b \<Longrightarrow> I k s \<Longrightarrow> I (Suc k) (f k s)"
  shows "I b (fold f [a..<b] s)"
  using assms(1) step
proof (induction b)
  case 0
  then show ?case using assms(2) by simp
next
  case (Suc b)
  show ?case
  proof (cases "a = Suc b")
    case True
    then show ?thesis using assms(2) by simp
  next
    case False
    then have ab: "a \<le> b" using Suc.prems(1) by simp
    have "I b (fold f [a..<b] s)"
      using ab Suc.prems(2) by (intro Suc.IH) auto
    then have "I (Suc b) (f b (fold f [a..<b] s))"
      using ab by (intro Suc.prems(2)) auto
    then show ?thesis using ab by simp
  qed
qed


lemma editDistance_take_step:
  assumes "1 \<le> i" "i \<le> length s1" "1 \<le> j" "j \<le> length s2"
  shows "editDistance (take i s1) (take j s2) =
     min (min (editDistance (take (i - 1) s1) (take j s2) + 1)
              (editDistance (take i s1) (take (j - 1) s2) + 1))
         (editDistance (take (i - 1) s1) (take (j - 1) s2)
            + (if s1 ! (i - 1) = s2 ! (j - 1) then 0 else 1))"
proof -
  obtain i' j' where ij: "i = Suc i'" "j = Suc j'"
    using assms(1,3) by (cases i; cases j) auto
  have t1: "take (Suc i') s1 = take i' s1 @ [s1 ! i']"
    using assms(2) ij by (simp add: take_Suc_conv_app_nth)
  have t2: "take (Suc j') s2 = take j' s2 @ [s2 ! j']"
    using assms(4) ij by (simp add: take_Suc_conv_app_nth)
  show ?thesis
    unfolding ij diff_Suc_1 t1 t2 by (rule editDistance_snoc)
qed

lemma fillCell_step:
  assumes inv: "cellsDone s1 s2 j k M" and j: "1 \<le> j" "j \<le> length s2"
    and k: "1 \<le> k" "k \<le> length s1"
  shows "cellsDone s1 s2 j (Suc k) (fillCell s1 s2 j k M)"
proof -
  let ?D = "\<lambda>i j. editDistance (take i s1) (take j s2)"
  from inv have shape: "wellShaped (length s1) (length s2) M"
    and col: "\<forall>j \<le> length s2. M ! j ! 0 = j"
    and rows: "\<forall>j' < j. \<forall>i \<le> length s1. M ! j' ! i = ?D i j'"
    and cells: "\<forall>i < k. M ! j ! i = ?D i j"
    by (auto simp: cellsDone_def rowsDone_def)
  have a: "M ! j ! (k - 1) = ?D (k - 1) j"
    using cells k by simp
  have b: "M ! (j - 1) ! k = ?D k (j - 1)"
    using rows j k by simp
  have c: "M ! (j - 1) ! (k - 1) = ?D (k - 1) (j - 1)"
    using rows j k by simp
  define v where "v = min (min (M ! j ! (k - 1) + 1) (M ! (j - 1) ! k + 1))
      (M ! (j - 1) ! (k - 1) + (if s1 ! (k - 1) = s2 ! (j - 1) then 0 else 1))"
  have v: "v = ?D k j"
    unfolding v_def a b c by (rule editDistance_take_step [OF k j, symmetric])
  have fc: "fillCell s1 s2 j k M = setCell M j k v"
    by (simp add: fillCell_def v_def)
  have nth: "\<And>j' i'. j' \<le> length s2 \<Longrightarrow>
      setCell M j k v ! j' ! i' = (if j' = j \<and> i' = k then v else M ! j' ! i')"
    using setCell_nth [OF shape j(2) k(2)] by simp
  have shape': "wellShaped (length s1) (length s2) (setCell M j k v)"
    using shape by (rule setCell_shape)
  have col': "\<forall>j' \<le> length s2. setCell M j k v ! j' ! 0 = j'"
    using col k nth by simp
  have rows': "\<forall>j' < j. \<forall>i \<le> length s1. setCell M j k v ! j' ! i = ?D i j'"
    using rows j nth by simp
  have cells': "\<forall>i < Suc k. setCell M j k v ! j ! i = ?D i j"
    using cells j nth v by (auto simp: less_Suc_eq)
  show ?thesis
    unfolding fc cellsDone_def rowsDone_def
    using shape' col' rows' cells' by blast
qed

lemma cellsDone_full:
  assumes "cellsDone s1 s2 j (length s1 + 1) X"
  shows "rowsDone s1 s2 (Suc j) X"
proof -
  from assms have r: "rowsDone s1 s2 j X"
    and c: "\<forall>i < length s1 + 1. X ! j ! i = editDistance (take i s1) (take j s2)"
    by (auto simp: cellsDone_def)
  have "X ! j' ! i = editDistance (take i s1) (take j' s2)"
    if "j' < Suc j" "i \<le> length s1" for j' i
  proof (cases "j' = j")
    case True
    with c that show ?thesis by simp
  next
    case False
    with r that show ?thesis by (simp add: rowsDone_def)
  qed
  with r show ?thesis
    by (simp add: rowsDone_def)
qed

lemma rowsDone_last:
  "rowsDone s1 s2 (length s2 + 1) X \<Longrightarrow> X ! length s2 ! length s1 = editDistance s1 s2"
  by (simp add: rowsDone_def)

lemma inner_loop_row:
  assumes inv: "rowsDone s1 s2 j M" and j: "1 \<le> j" "j \<le> length s2"
  shows "rowsDone s1 s2 (Suc j) (fold (fillCell s1 s2 j) [1..<length s1 + 1] M)"
proof -
  have start: "cellsDone s1 s2 j 1 M"
    using inv j by (auto simp: cellsDone_def rowsDone_def)
  have "cellsDone s1 s2 j (length s1 + 1) (fold (fillCell s1 s2 j) [1..<length s1 + 1] M)"
  proof (rule fold_upt_invariant [where I = "cellsDone s1 s2 j"])
    show "1 \<le> length s1 + 1" by simp
    show "cellsDone s1 s2 j 1 M" by (rule start)
    show "cellsDone s1 s2 j (Suc k) (fillCell s1 s2 j k M')"
      if "1 \<le> k" "k < length s1 + 1" "cellsDone s1 s2 j k M'" for k M'
      using that j by (intro fillCell_step) auto
  qed
  then show ?thesis
    by (rule cellsDone_full)
qed

lemma init_rows:
  "rowsDone s1 s2 1
     (fold (\<lambda>j matrix. setCell matrix j 0 j) [0..<length s2 + 1]
        (fold (\<lambda>i matrix. setCell matrix 0 i i) [0..<length s1 + 1]
           (replicate (length s2 + 1) (replicate (length s1 + 1) 0))))"
proof -
  let ?m = "length s1" and ?n = "length s2"
  let ?M0 = "replicate (?n + 1) (replicate (?m + 1) (0::nat))"
  let ?M1 = "fold (\<lambda>i matrix. setCell matrix 0 i i) [0..<?m + 1] ?M0"
  let ?M2 = "fold (\<lambda>j matrix. setCell matrix j 0 j) [0..<?n + 1] ?M1"
  define I1 where "I1 = (\<lambda>k M. wellShaped ?m ?n M \<and> (\<forall>i < k. M ! 0 ! i = i))"
  define I2 where "I2 = (\<lambda>k M. wellShaped ?m ?n M \<and> (\<forall>i \<le> ?m. M ! 0 ! i = i)
                             \<and> (\<forall>j < k. M ! j ! 0 = j))"
  have s0: "wellShaped ?m ?n ?M0"
    by (simp add: wellShaped_def del: replicate.simps)
  have "I1 (?m + 1) ?M1"
  proof (rule fold_upt_invariant [where I = I1])
    show "0 \<le> ?m + 1" by simp
    show "I1 0 ?M0" using s0 by (simp add: I1_def)
    show "I1 (Suc k) (setCell M 0 k k)" if "0 \<le> k" "k < ?m + 1" "I1 k M" for k M
    proof -
      from that have sh: "wellShaped ?m ?n M" and old: "\<forall>i < k. M ! 0 ! i = i" and k: "k \<le> ?m"
        by (auto simp: I1_def)
      have "setCell M 0 k k ! 0 ! i = (if i = k then k else M ! 0 ! i)" for i
        using setCell_nth [OF sh _ k, of 0 0 k i] by simp
      then have "\<forall>i < Suc k. setCell M 0 k k ! 0 ! i = i"
        using old by (simp add: less_Suc_eq)
      then show ?thesis
        using setCell_shape [OF sh] by (simp add: I1_def)
    qed
  qed
  then have i1: "I2 0 ?M1"
    by (simp add: I1_def I2_def)
  have "I2 (?n + 1) ?M2"
  proof (rule fold_upt_invariant [where I = I2])
    show "0 \<le> ?n + 1" by simp
    show "I2 0 ?M1" by (rule i1)
    show "I2 (Suc k) (setCell M k 0 k)" if "0 \<le> k" "k < ?n + 1" "I2 k M" for k M
    proof -
      from that have sh: "wellShaped ?m ?n M" and row: "\<forall>i \<le> ?m. M ! 0 ! i = i"
        and old: "\<forall>j < k. M ! j ! 0 = j" and k: "k \<le> ?n"
        by (auto simp: I2_def)
      have nth: "j' \<le> ?n \<Longrightarrow>
          setCell M k 0 k ! j' ! i = (if j' = k \<and> i = 0 then k else M ! j' ! i)" for j' i
        using setCell_nth [OF sh k, of 0 j' k i] by simp
      have r: "\<forall>i \<le> ?m. setCell M k 0 k ! 0 ! i = i"
        using row nth [of 0] by simp
      have c: "\<forall>j < Suc k. setCell M k 0 k ! j ! 0 = j"
        using old k nth by (simp add: less_Suc_eq)
      show ?thesis
        using setCell_shape [OF sh] r c by (simp add: I2_def)
    qed
  qed
  then show ?thesis
    by (simp add: rowsDone_def I2_def editDistance_Nil2)
qed

lemma levenshteinDistance_correct:
  "levenshteinDistance str1 str2 = editDistance str1 str2"
proof -
  let ?M2 = "fold (\<lambda>j matrix. setCell matrix j 0 j) [0..<length str2 + 1]
        (fold (\<lambda>i matrix. setCell matrix 0 i i) [0..<length str1 + 1]
           (replicate (length str2 + 1) (replicate (length str1 + 1) 0)))"
  let ?M3 = "fold (\<lambda>j matrix. fold (fillCell str1 str2 j) [1..<length str1 + 1] matrix)
                      [1..<length str2 + 1] ?M2"
  have "rowsDone str1 str2 (length str2 + 1) ?M3"
  proof (rule fold_upt_invariant [where I = "rowsDone str1 str2"])
    show "1 \<le> length str2 + 1" by simp
    show "rowsDone str1 str2 1 ?M2" by (rule init_rows)
    show "rowsDone str1 str2 (Suc k) (fold (fillCell str1 str2 k) [1..<length str1 + 1] M)"
      if "1 \<le> k" "k < length str2 + 1" "rowsDone str1 str2 k M" for k M
      using that by (intro inner_loop_row) auto
  qed
  then have "?M3 ! length str2 ! length str1 = editDistance str1 str2"
    by (rule rowsDone_last)
  then show ?thesis
    unfolding levenshteinDistance_def Let_def .
qed


lemma transforms_insert_all: "transforms (length ys) [] ys"
  by (induction ys) (auto intro: transforms.intros)

lemma transforms_delete_all: "transforms (length xs) xs []"
  by (induction xs) (auto intro: transforms.intros)

lemma editDistance_reached: "transforms (editDistance xs ys) xs ys"
proof (induction xs ys rule: editDistance.induct)
  case (1 ys)
  then show ?case by (simp add: transforms_insert_all)
next
  case (2 x xs)
  then show ?case using transforms_delete_all [of "x # xs"] by simp
next
  case (3 x xs y ys)
  let ?a = "editDistance xs (y # ys) + 1"
  let ?b = "editDistance (x # xs) ys + 1"
  let ?c = "editDistance xs ys + (if x = y then 0 else 1)"
  have ta: "transforms ?a (x # xs) (y # ys)"
    using "3.IH"(1) by (auto intro: transforms.deletion)
  have tb: "transforms ?b (x # xs) (y # ys)"
    using "3.IH"(2) by (auto intro: transforms.insertion)
  have tc: "transforms ?c (x # xs) (y # ys)"
    using "3.IH"(3) by (auto intro: transforms.keep transforms.substitution)
  have "editDistance (x # xs) (y # ys) = ?a \<or> editDistance (x # xs) (y # ys) = ?b
        \<or> editDistance (x # xs) (y # ys) = ?c"
    by (simp add: min_def)
  then show ?case using ta tb tc by metis
qed

lemma editDistance_insert_le: "editDistance xs (y # ys) \<le> editDistance xs ys + 1"
  by (cases xs) simp_all

lemma editDistance_delete_le: "editDistance (x # xs) ys \<le> editDistance xs ys + 1"
  by (cases ys) simp_all

lemma editDistance_least: "transforms n xs ys \<Longrightarrow> editDistance xs ys \<le> n"
proof (induction rule: transforms.induct)
  case finish
  then show ?case by simp
next
  case (keep n xs ys x)
  then show ?case by (simp add: min.coboundedI2)
next
  case (substitution n xs ys x y)
  then show ?case by (simp add: min.coboundedI2)
next
  case (insertion n xs ys y)
  then show ?case using editDistance_insert_le [of xs y ys] by simp
next
  case (deletion n xs ys x)
  then show ?case using editDistance_delete_le [of x xs ys] by simp
qed

text \<open>
  Claim C9. The value \<^verbatim>\<open>levenshteinDistance\<close> reads from the last cell of its table is the
  Levenshtein distance of the two strings: it equals the recursive definition, that many
  single-character edits turn \<^verbatim>\<open>str1\<close> into \<^verbatim>\<open>str2\<close>, and no smaller number does. For
  \<open>kitten\<close> and \<open>sitting\<close> it is 3.
\<close>

theorem levenshteinDistance_is_edit_distance:
  "levenshteinDistance str1 str2 = editDistance str1 str2
   \<and> transforms (levenshteinDistance str1 str2) str1 str2
   \<and> (transforms n str1 str2 \<longrightarrow> levenshteinDistance str1 str2 \<le> n)
   \<and> levenshteinDistance ''kitten'' ''sitting'' = 3"
proof -
  have "levenshteinDistance ''kitten'' ''sitting'' = 3"
    by code_simp
  then show ?thesis
    using editDistance_reached [of str1 str2] editDistance_least [of n str1 str2]
    by (simp add: levenshteinDistance_correct)
qed

theorem levenshteinDistance_is_edit_distance_witness:
  "transforms 3 ''kitten'' ''sitting'' \<and> levenshteinDistance ''kitten'' ''sitting'' \<le> 3"
proof -
  have "transforms 0 ('''' :: string) ''''"
    by (rule transforms.finish)
  then have "transforms (Suc 0) '''' ''g''"
    by (rule transforms.insertion)
  then have "transforms (Suc 0) ''n'' ''ng''"
    by (rule transforms.keep)
  then have "transforms (Suc (Suc 0)) ''en'' ''ing''"
    by (rule transforms.substitution)
  then have "transforms (Suc (Suc 0)) ''tten'' ''tting''"
    by (intro transforms.keep)
  then have "transforms (Suc (Suc 0)) ''itten'' ''itting''"
    by (rule transforms.keep)
  then have "transforms (Suc (Suc (Suc 0))) ''kitten'' ''sitting''"
    by (rule transforms.substitution)
  then have t: "transforms 3 ''kitten'' ''sitting''"
    by (simp add: numeral_3_eq_3)
  with levenshteinDistance_is_edit_distance [of "''kitten''" "''sitting''" 3]
  show ?thesis by blast
qed

end
